theory Spec2Isabelle
  imports Complex_Main "HOL-Library.Char_ord" "HOL-Library.List_Lexorder"
    "HOL-Library.Product_Lexorder"
begin

section \<open>Data model\<close>

text \<open>
  The engine lives in \<^verbatim>\<open>get_strategy_portfolio_weight_comparison\<close>
  (\<^verbatim>\<open>KBAM/Dashboard/call.py\<close>).  Python floats are idealised as real
  numbers, so every equality below is exact where the program's one holds up to
  rounding.  A Python \<^verbatim>\<open>dict\<close> keeps its keys in insertion order and
  is an association list here; a price read from the database is a float or
  \<^verbatim>\<open>None\<close>.  Instrument names are ASCII strings.
\<close>

type_synonym 'v dict = "(string \<times> 'v) list"

text \<open>\<^verbatim>\<open>d.get(k, dflt)\<close>\<close>

definition dict_get :: "'v dict \<Rightarrow> string \<Rightarrow> 'v \<Rightarrow> 'v" where
  "dict_get d k dflt = (case map_of d k of None \<Rightarrow> dflt | Some v \<Rightarrow> v)"

text \<open>\<^verbatim>\<open>d.get(k)\<close> on a dictionary of prices: \<^verbatim>\<open>None\<close> for a missing
  key as well as for a stored \<^verbatim>\<open>None\<close>.\<close>

definition price_get :: "real option dict \<Rightarrow> string \<Rightarrow> real option" where
  "price_get d k = (case map_of d k of None \<Rightarrow> None | Some p \<Rightarrow> p)"

text \<open>\<^verbatim>\<open>d[k] = v\<close>: an existing key keeps its position, a new key goes last.\<close>

primrec dict_set :: "string \<Rightarrow> 'v \<Rightarrow> 'v dict \<Rightarrow> 'v dict" where
  "dict_set k v [] = [(k, v)]"
| "dict_set k v (p # ps) = (if fst p = k then (k, v) # ps else p # dict_set k v ps)"

text \<open>\<^verbatim>\<open>sum(d.values())\<close>\<close>

definition sum_values :: "real dict \<Rightarrow> real" where
  "sum_values d = sum_list (map snd d)"

section \<open>Exact-targeting solver\<close>

text \<open>
  \<^verbatim>\<open>additional_amount = (target_weight * nav_current - adjusted_weight) / (1 - target_weight)\<close>,
  computed under the guard \<^verbatim>\<open>(1 - target_weight) > 0\<close>.
\<close>

definition additional_amount :: "real \<Rightarrow> real \<Rightarrow> real \<Rightarrow> real" where
  "additional_amount target_weight nav_current adjusted_weight =
     (target_weight * nav_current - adjusted_weight) / (1 - target_weight)"

text \<open>
  The share of the instrument after the injection,
  \<^verbatim>\<open>new_amount / nav_current\<close> with \<^verbatim>\<open>new_amount = adjusted_weight + additional_amount\<close>
  and the updated \<^verbatim>\<open>nav_current = nav_current + additional_amount\<close>.  The program
  never evaluates this quotient (it stores the target); as a Python float division
  it has no value when the new NAV is zero.
\<close>

definition share_after_injection :: "real \<Rightarrow> real \<Rightarrow> real \<Rightarrow> real option" where
  "share_after_injection target_weight nav_current adjusted_weight =
     (let x = additional_amount target_weight nav_current adjusted_weight;
          new_amount = adjusted_weight + x;
          nav_new = nav_current + x
      in if nav_new = 0 then None else Some (new_amount / nav_new))"


section \<open>Identifier matching\<close>

text \<open>The string operations the matching uses, on ASCII strings.\<close>

definition upper_char :: "char \<Rightarrow> char" where
  "upper_char c =
     (case map_of (zip ''abcdefghijklmnopqrstuvwxyz'' ''ABCDEFGHIJKLMNOPQRSTUVWXYZ'') c of
        Some u \<Rightarrow> u
      | None \<Rightarrow> c)"

definition is_space :: "char \<Rightarrow> bool" where
  "is_space c = (let n = (of_char c :: nat) in (9 \<le> n \<and> n \<le> 13) \<or> (28 \<le> n \<and> n \<le> 32))"

text \<open>\<^verbatim>\<open>name.replace(' ', '').upper()\<close>\<close>

definition clean :: "string \<Rightarrow> string" where
  "clean s = map upper_char (filter (\<lambda>c. c \<noteq> CHR '' '') s)"

text \<open>\<^verbatim>\<open>s.replace('US', '')\<close>: every occurrence, left to right, in one pass.\<close>

fun replace_US :: "string \<Rightarrow> string" where
  "replace_US (c1 # c2 # rest) =
     (if c1 = CHR ''U'' \<and> c2 = CHR ''S'' then replace_US rest else c1 # replace_US (c2 # rest))"
| "replace_US s = s"

text \<open>\<^verbatim>\<open>s.strip()\<close>\<close>

definition strip :: "string \<Rightarrow> string" where
  "strip s = rev (dropWhile is_space (rev (dropWhile is_space s)))"

text \<open>\<^verbatim>\<open>s.startswith(p)\<close>\<close>

definition startswith :: "string \<Rightarrow> string \<Rightarrow> bool" where
  "startswith s p = (take (length p) s = p)"

definition no_us :: "string \<Rightarrow> string" where
  "no_us s_clean = strip (replace_US s_clean)"

text \<open>
  The matching loop of the engine (lines 3367-3377): over the overrides of the
  date in dictionary order, equality of the cleaned names, then equality after
  removing \<^verbatim>\<open>US\<close>.  The loop stops at the first override that matches.
\<close>

fun engine_match_loop :: "string \<Rightarrow> real dict \<Rightarrow> real \<Rightarrow> real" where
  "engine_match_loop stock_name_clean [] current_active_weight = current_active_weight"
| "engine_match_loop stock_name_clean ((mp_stock_name, mp_active_weight) # rest) current_active_weight =
     (let mp_stock_name_clean = clean mp_stock_name in
      if stock_name_clean = mp_stock_name_clean then mp_active_weight
      else
        let stock_name_no_us = no_us stock_name_clean;
            mp_stock_name_no_us = no_us mp_stock_name_clean
        in if stock_name_no_us \<noteq> [] \<and> mp_stock_name_no_us \<noteq> []
              \<and> stock_name_no_us = mp_stock_name_no_us
           then mp_active_weight
           else engine_match_loop stock_name_clean rest current_active_weight)"

text \<open>\<^verbatim>\<open>current_active_weight\<close> of a stock (lines 3364-3377).\<close>

definition current_active_weight :: "real dict \<Rightarrow> string \<Rightarrow> real" where
  "current_active_weight date_active_weights stock_name =
     (let caw = dict_get date_active_weights stock_name 0 in
      if caw = 0 \<and> date_active_weights \<noteq> []
      then engine_match_loop (clean stock_name) date_active_weights caw
      else caw)"

text \<open>
  The matching loop of the output rows (lines 3458-3479 and again 3665-3685):
  equality, equality of the cleaned names, equality after removing
  \<^verbatim>\<open>US\<close>, then \<^verbatim>\<open>startswith\<close> either way.
\<close>

fun row_match_loop :: "string \<Rightarrow> real dict \<Rightarrow> real \<Rightarrow> real" where
  "row_match_loop stock_name [] active_weight = active_weight"
| "row_match_loop stock_name ((mp_stock_name, mp_active_weight) # rest) active_weight =
     (let stock_name_clean = clean stock_name;
          mp_stock_name_clean = clean mp_stock_name in
      if stock_name = mp_stock_name then mp_active_weight
      else if stock_name_clean = mp_stock_name_clean then mp_active_weight
      else
        let stock_name_no_us = no_us stock_name_clean;
            mp_stock_name_no_us = no_us mp_stock_name_clean
        in if stock_name_no_us \<noteq> [] \<and> mp_stock_name_no_us \<noteq> []
              \<and> stock_name_no_us = mp_stock_name_no_us
           then mp_active_weight
           else if startswith stock_name_clean mp_stock_name_clean
                   \<or> startswith mp_stock_name_clean stock_name_clean
           then mp_active_weight
           else row_match_loop stock_name rest active_weight)"

text \<open>\<^verbatim>\<open>active_weight\<close> of an output row (lines 3454-3479).\<close>

definition row_active_weight :: "real dict \<Rightarrow> string \<Rightarrow> real" where
  "row_active_weight date_active_weights stock_name =
     (let aw = dict_get date_active_weights stock_name 0 in
      if aw = 0 \<and> date_active_weights \<noteq> []
      then row_match_loop stock_name date_active_weights aw
      else aw)"

text \<open>
  The tests one pass of each matching loop makes on an override name, as one
  condition: the pass takes the delta of the override when it holds.
\<close>

definition engine_matches :: "string \<Rightarrow> string \<Rightarrow> bool" where
  "engine_matches stock_name_clean mp_stock_name =
     (stock_name_clean = clean mp_stock_name
      \<or> (no_us stock_name_clean \<noteq> [] \<and> no_us (clean mp_stock_name) \<noteq> []
          \<and> no_us stock_name_clean = no_us (clean mp_stock_name)))"

definition row_matches :: "string \<Rightarrow> string \<Rightarrow> bool" where
  "row_matches stock_name mp_stock_name =
     (stock_name = mp_stock_name
      \<or> clean stock_name = clean mp_stock_name
      \<or> (no_us (clean stock_name) \<noteq> [] \<and> no_us (clean mp_stock_name) \<noteq> []
          \<and> no_us (clean stock_name) = no_us (clean mp_stock_name))
      \<or> startswith (clean stock_name) (clean mp_stock_name)
      \<or> startswith (clean mp_stock_name) (clean stock_name))"

text \<open>
  The reconciliation steps as the specification words them (section 4.1), to be
  compared with the two loops above: exact equality; case-insensitive,
  whitespace-stripped equality; equality after stripping a trailing
  \<^verbatim>\<open>US\<close> or \<^verbatim>\<open>KS\<close> token from both sides; either normalized string a
  prefix of the other.
\<close>

definition spec_normalize :: "string \<Rightarrow> string" where
  "spec_normalize s = map upper_char (strip s)"

definition spec_strip_suffix :: "string \<Rightarrow> string" where
  "spec_strip_suffix n =
     (if 3 \<le> length n
         \<and> (drop (length n - 3) n = '' US'' \<or> drop (length n - 3) n = '' KS'')
      then strip (take (length n - 3) n)
      else n)"

definition spec_matches :: "string \<Rightarrow> string \<Rightarrow> bool" where
  "spec_matches override_id candidate_id =
     (override_id = candidate_id
      \<or> spec_normalize override_id = spec_normalize candidate_id
      \<or> spec_strip_suffix (spec_normalize override_id)
            = spec_strip_suffix (spec_normalize candidate_id)
      \<or> startswith (spec_normalize override_id) (spec_normalize candidate_id)
      \<or> startswith (spec_normalize candidate_id) (spec_normalize override_id))"

section \<open>One non-base date of the recurrence\<close>

text \<open>
  \<^verbatim>\<open>if prev_price and current_price and prev_price > 0\<close>: the two prices when the
  condition holds.
\<close>

fun price_pair :: "real option \<Rightarrow> real option \<Rightarrow> (real \<times> real) option" where
  "price_pair (Some p) (Some c) = (if p \<noteq> 0 \<and> c \<noteq> 0 \<and> p > 0 then Some (p, c) else None)"
| "price_pair _ _ = None"

text \<open>Organic drift of one stock (lines 3350-3359).\<close>

definition drift :: "real \<Rightarrow> real option \<Rightarrow> real option \<Rightarrow> real" where
  "drift prev_strategy_weight prev_price current_price =
     (case price_pair prev_price current_price of
        Some (p, c) \<Rightarrow> prev_strategy_weight * (c / p)
      | None \<Rightarrow> prev_strategy_weight)"

text \<open>
  \<^verbatim>\<open>adjusted_weights\<close> (lines 3348-3359).  \<open>all_stocks\<close> is the Python set of
  line 3345 as the list of its elements in iteration order.
\<close>

definition adjusted_weights ::
  "string list \<Rightarrow> real dict \<Rightarrow> real option dict \<Rightarrow> real option dict \<Rightarrow> real dict" where
  "adjusted_weights all_stocks prev_strategy_weights prev_prices date_prices =
     map (\<lambda>stock_name. (stock_name,
            drift (dict_get prev_strategy_weights stock_name 0)
                  (price_get prev_prices stock_name) (price_get date_prices stock_name)))
         all_stocks"

record info =
  adjusted_weight :: real
  target_weight :: real
  active_weight :: real

text \<open>\<^verbatim>\<open>stocks_with_active_weight\<close> (lines 3362-3386), in insertion order.\<close>

fun stocks_with_active_weight :: "string list \<Rightarrow> real dict \<Rightarrow> real dict \<Rightarrow> info dict" where
  "stocks_with_active_weight [] adjusted date_active_weights = []"
| "stocks_with_active_weight (stock_name # rest) adjusted date_active_weights =
     (let caw = current_active_weight date_active_weights stock_name in
      if caw > 0 then
        (let aw = dict_get adjusted stock_name 0 in
         (stock_name, \<lparr>adjusted_weight = aw, target_weight = aw + caw, active_weight = caw\<rparr>)
           # stocks_with_active_weight rest adjusted date_active_weights)
      else stocks_with_active_weight rest adjusted date_active_weights)"

text \<open>
  The injection loop (lines 3401-3418).  The state is \<^verbatim>\<open>nav_current\<close>,
  \<^verbatim>\<open>adjusted_weights_current\<close> and \<^verbatim>\<open>strategy_weights\<close>.
\<close>

fun inject_loop :: "info dict \<Rightarrow> real \<Rightarrow> real dict \<Rightarrow> real dict \<Rightarrow> real \<times> real dict \<times> real dict" where
  "inject_loop [] nav_current adjusted_weights_current strategy_weights =
     (nav_current, adjusted_weights_current, strategy_weights)"
| "inject_loop ((stock_name, i) # rest) nav_current adjusted_weights_current strategy_weights =
     (let aw = dict_get adjusted_weights_current stock_name 0;
          tw = target_weight i in
      if 1 - tw > 0 then
        (let x = additional_amount tw nav_current aw;
             new_amount = aw + x
         in inject_loop rest (nav_current + x)
              (dict_set stock_name new_amount adjusted_weights_current)
              (dict_set stock_name tw strategy_weights))
      else inject_loop rest nav_current adjusted_weights_current
              (dict_set stock_name aw strategy_weights))"

text \<open>
  One pass of the injection loop as a function of \<^verbatim>\<open>nav_current\<close> alone, reading
  the drifted weight of the stock from \<^verbatim>\<open>adjusted_weights\<close>.
\<close>

definition inject_step :: "real dict \<Rightarrow> real \<Rightarrow> string \<times> info \<Rightarrow> real" where
  "inject_step adjusted nav_current p =
     (if 1 - target_weight (snd p) > 0
      then nav_current
             + additional_amount (target_weight (snd p)) nav_current (dict_get adjusted (fst p) 0)
      else nav_current)"

text \<open>The dilution loop (lines 3422-3426).\<close>

fun dilute_loop :: "string list \<Rightarrow> info dict \<Rightarrow> real dict \<Rightarrow> real \<Rightarrow> real dict \<Rightarrow> real dict" where
  "dilute_loop [] swa adjusted nav_current strategy_weights = strategy_weights"
| "dilute_loop (stock_name # rest) swa adjusted nav_current strategy_weights =
     (if map_of swa stock_name = None then
        (let aw = dict_get adjusted stock_name 0 in
         dilute_loop rest swa adjusted nav_current
           (dict_set stock_name (if nav_current > 0 then aw / nav_current else aw) strategy_weights))
      else dilute_loop rest swa adjusted nav_current strategy_weights)"

text \<open>\<^verbatim>\<open>nav_old\<close> (lines 3392-3394).\<close>

definition nav_old :: "real dict \<Rightarrow> real" where
  "nav_old adjusted =
     (let n = (if adjusted \<noteq> [] then sum_values adjusted else 1) in if n \<le> 0 then 1 else n)"

text \<open>\<^verbatim>\<open>nav_current\<close> after the injection loop.\<close>

definition nav_final :: "info dict \<Rightarrow> real dict \<Rightarrow> real" where
  "nav_final swa adjusted = fst (inject_loop swa (nav_old adjusted) adjusted [])"

text \<open>\<^verbatim>\<open>strategy_weights\<close> from the drifted weights (lines 3389-3429).\<close>

definition apply_targeting :: "string list \<Rightarrow> real dict \<Rightarrow> real dict \<Rightarrow> real dict" where
  "apply_targeting all_stocks adjusted date_active_weights =
     (let swa = stocks_with_active_weight all_stocks adjusted date_active_weights in
      if swa \<noteq> [] then
        (case inject_loop swa (nav_old adjusted) adjusted [] of
           (nav_current, adjusted_weights_current, strategy_weights) \<Rightarrow>
             dilute_loop all_stocks swa adjusted nav_current strategy_weights)
      else adjusted)"

text \<open>
  \<^verbatim>\<open>strategy_weights\<close> of a non-base date (lines 3343-3429).  \<open>iter\<close> stands
  for \<^verbatim>\<open>set(...)\<close> followed by iteration: it lists the distinct elements of
  its argument in the order the Python set yields them.
\<close>

definition keys :: "'v dict \<Rightarrow> string list" where
  "keys d = map fst d"

definition set_iteration :: "(string list \<Rightarrow> string list) \<Rightarrow> bool" where
  "set_iteration iter = (\<forall>xs. distinct (iter xs) \<and> set (iter xs) = set xs)"

definition non_base_all_stocks ::
  "(string list \<Rightarrow> string list) \<Rightarrow> real dict \<Rightarrow> real dict \<Rightarrow> real dict \<Rightarrow> string list" where
  "non_base_all_stocks iter prev_strategy_weights date_bm_weights date_active_weights =
     iter (keys prev_strategy_weights @ keys date_bm_weights @ keys date_active_weights)"

definition non_base_strategy_weights ::
  "(string list \<Rightarrow> string list) \<Rightarrow> real dict \<Rightarrow> real option dict \<Rightarrow> real dict \<Rightarrow> real dict
     \<Rightarrow> real option dict \<Rightarrow> real dict" where
  "non_base_strategy_weights iter prev_strategy_weights prev_prices date_bm_weights
       date_active_weights date_prices =
     (let all_stocks = non_base_all_stocks iter prev_strategy_weights date_bm_weights date_active_weights;
          adjusted = adjusted_weights all_stocks prev_strategy_weights prev_prices date_prices
      in apply_targeting all_stocks adjusted date_active_weights)"

section \<open>The base date\<close>

text \<open>\<^verbatim>\<open>strategy_weights\<close> of the base date (lines 3312-3319).\<close>

fun base_loop :: "string list \<Rightarrow> real dict \<Rightarrow> real dict \<Rightarrow> real dict \<Rightarrow> real dict" where
  "base_loop [] date_bm_weights date_active_weights strategy_weights = strategy_weights"
| "base_loop (stock_name # rest) date_bm_weights date_active_weights strategy_weights =
     base_loop rest date_bm_weights date_active_weights
       (dict_set stock_name
          (dict_get date_bm_weights stock_name 0 + dict_get date_active_weights stock_name 0)
          strategy_weights)"

definition base_strategy_weights ::
  "(string list \<Rightarrow> string list) \<Rightarrow> real dict \<Rightarrow> real dict \<Rightarrow> real dict" where
  "base_strategy_weights iter date_bm_weights date_active_weights =
     base_loop (iter (keys date_bm_weights @ keys date_active_weights))
       date_bm_weights date_active_weights []"

text \<open>The NAVs of the base date (lines 3556-3568): \<^verbatim>\<open>(bm_nav_base, mp_nav)\<close>.\<close>

definition base_navs :: "real dict \<Rightarrow> real dict \<Rightarrow> real \<times> real" where
  "base_navs date_bm_weights date_active_weights =
     (let bm_weight_sum = sum_values date_bm_weights;
          active_weight_sum = sum_values date_active_weights;
          bm_nav_base = (if bm_weight_sum > 0 then bm_weight_sum else 1);
          mp_nav = bm_nav_base + (bm_nav_base * active_weight_sum)
      in (bm_nav_base, mp_nav))"

section \<open>Output rows and the loop over dates\<close>

text \<open>
  One entry of \<^verbatim>\<open>results\<close> (lines 3536-3553 and 3745-3762).  The keys of the
  source are, in this order: date, stock name, \<^verbatim>\<open>PRICE\<close>, \<^verbatim>\<open>LOCAL_PRICE\<close>,
  BM weight, \<^verbatim>\<open>active_weight\<close>, strategy weight, weight difference, BM amount,
  MP amount, absolute active amount, absolute active ratio, return since the base
  date, BM contribution, strategy contribution, excess contribution.  A date is
  the number of its day.
\<close>

record row =
  r_date :: nat
  r_stock_name :: string
  r_PRICE :: "real option"
  r_LOCAL_PRICE :: "real option"
  r_bm_weight :: real
  r_active_weight :: real
  r_strategy_weight :: real
  r_weight_diff :: real
  r_bm_amount :: real
  r_mp_amount :: real
  r_absolute_active_amount :: real
  r_absolute_active_pct :: real
  r_return :: real
  r_bm_contribution :: real
  r_strategy_contribution :: real
  r_excess_contribution :: real

text \<open>One entry of \<^verbatim>\<open>daily_weight_summary\<close> (lines 3616-3625).\<close>

record summary =
  s_date :: nat
  s_bm_weight_sum :: real
  s_strategy_weight_sum :: real
  s_active_weight_sum :: real
  s_weight_sum_diff :: real
  s_BM_NAV :: real
  s_MP_NAV :: real
  s_NAV_diff :: real

text \<open>The variables the loop carries from one date to the next (lines 3244-3248).\<close>

record state =
  prev_bm_weights :: "real dict"
  prev_strategy_weights :: "real dict"
  prev_prices :: "real option dict"
  prev_bm_nav :: "real option"
  prev_mp_nav :: "real option"

text \<open>
  What the loop reads for one date: the date, \<^verbatim>\<open>date_bm_weights\<close> and
  \<^verbatim>\<open>date_active_weights\<close> as built in lines 3257-3276, the rows of the
  \<^verbatim>\<open>stock_price\<close> table for the date (name, price, local price), and the BM
  weights of the date before it in \<^verbatim>\<open>dates\<close>, if there is one.
\<close>

record day_input =
  d_date :: nat
  d_bm_weights :: "real dict"
  d_active_weights :: "real dict"
  d_stock_price :: "(string \<times> real option \<times> real option) list"
  d_prev_date_bm :: "real dict option"

text \<open>The price query of a date for a list of names, and the dictionaries built from its rows.\<close>

definition query_prices ::
  "(string \<times> real option \<times> real option) list \<Rightarrow> string list
     \<Rightarrow> (string \<times> real option \<times> real option) list" where
  "query_prices stock_price names = filter (\<lambda>(n, p, l). n \<in> set names) stock_price"

definition prices_of :: "(string \<times> real option \<times> real option) list \<Rightarrow> real option dict" where
  "prices_of price_rows = fold (\<lambda>(n, p, l). dict_set n p) price_rows []"

definition local_prices_of ::
  "bool \<Rightarrow> (string \<times> real option \<times> real option) list \<Rightarrow> real option dict" where
  "local_prices_of local_price_col price_rows =
     (if local_price_col then fold (\<lambda>(n, p, l). dict_set n l) price_rows [] else [])"

text \<open>The row of one stock (lines 3448-3553).\<close>

definition make_row ::
  "bool \<Rightarrow> nat \<Rightarrow> real option dict \<Rightarrow> real option dict \<Rightarrow> real option dict \<Rightarrow> real dict
     \<Rightarrow> real dict \<Rightarrow> real dict \<Rightarrow> string \<Rightarrow> row" where
  "make_row is_base date_obj base_prices date_prices date_local_prices date_bm_weights
       date_active_weights strategy_weights stock_name =
     (let base_price = price_get base_prices stock_name;
          date_price = price_get date_prices stock_name;
          date_local_price =
            (if date_local_prices \<noteq> [] then price_get date_local_prices stock_name else None);
          bm_weight = dict_get date_bm_weights stock_name 0;
          strategy_weight = dict_get strategy_weights stock_name 0;
          aw = row_active_weight date_active_weights stock_name;
          weight_diff = strategy_weight - bm_weight;
          stock_return =
            (case price_pair base_price date_price of
               Some (b, d) \<Rightarrow> (d / b - 1) * 100
             | None \<Rightarrow> 0);
          bm_contribution = stock_return * bm_weight;
          strategy_contribution = stock_return * strategy_weight;
          excess_contribution = strategy_contribution - bm_contribution;
          final_active_weight = (if aw > 0 then aw else 0);
          bm_nav_base =
            (let n = (if date_bm_weights \<noteq> [] then sum_values date_bm_weights else 1)
             in if n \<le> 0 then 1 else n);
          bm_amount = bm_nav_base * bm_weight;
          mp_amount =
            (if is_base then bm_amount + (bm_nav_base * final_active_weight)
             else
               let active_weight_sum = sum_values date_active_weights;
                   mp_nav = bm_nav_base + (bm_nav_base * active_weight_sum)
               in if strategy_weight > 0 then
                    (let strategy_weight_sum = sum_values strategy_weights in
                     if strategy_weight_sum > 0 \<and> \<bar>strategy_weight_sum - mp_nav\<bar> < 1 / 100
                     then strategy_weight
                     else mp_nav * strategy_weight)
                  else 0);
          absolute_active_amount = mp_amount - bm_amount;
          absolute_active_pct =
            (if bm_nav_base > 0 then absolute_active_amount / bm_nav_base else 0)
      in \<lparr> r_date = date_obj,
           r_stock_name = stock_name,
           r_PRICE = date_price,
           r_LOCAL_PRICE = date_local_price,
           r_bm_weight = bm_weight,
           r_active_weight = final_active_weight,
           r_strategy_weight = strategy_weight,
           r_weight_diff = weight_diff,
           r_bm_amount = bm_amount,
           r_mp_amount = mp_amount,
           r_absolute_active_amount = absolute_active_amount,
           r_absolute_active_pct = absolute_active_pct,
           r_return = (if stock_return \<noteq> 0 then stock_return / 100 else 0),
           r_bm_contribution = (if bm_contribution \<noteq> 0 then bm_contribution / 100 else 0),
           r_strategy_contribution =
             (if strategy_contribution \<noteq> 0 then strategy_contribution / 100 else 0),
           r_excess_contribution =
             (if excess_contribution \<noteq> 0 then excess_contribution / 100 else 0) \<rparr>)"

text \<open>
  The daily return of a portfolio (lines 3576-3589): the sum over the weights of
  the return of each stock that has both prices, times its weight.
\<close>

definition daily_return :: "real dict \<Rightarrow> real option dict \<Rightarrow> real option dict \<Rightarrow> real" where
  "daily_return weights prices_before date_prices =
     fold (\<lambda>(stock_name, w) acc.
             case price_pair (price_get prices_before stock_name) (price_get date_prices stock_name) of
               Some (p, c) \<Rightarrow> acc + (c / p - 1) * w
             | None \<Rightarrow> acc)
          weights 0"

text \<open>The NAVs of a non-base date (lines 3569-3605): \<^verbatim>\<open>(bm_nav_base, mp_nav)\<close>.\<close>

definition non_base_navs ::
  "state \<Rightarrow> real dict \<Rightarrow> real dict \<Rightarrow> real option dict \<Rightarrow> real \<times> real" where
  "non_base_navs st date_bm_weights date_active_weights date_prices =
     (let bm_weight_sum = sum_values date_bm_weights;
          bm_daily_return = daily_return (prev_bm_weights st) (prev_prices st) date_prices;
          mp_daily_return = daily_return (prev_strategy_weights st) (prev_prices st) date_prices;
          bm_nav_base =
            (case prev_bm_nav st of
               Some n \<Rightarrow> if n > 0 then n * (1 + bm_daily_return)
                         else if bm_weight_sum > 0 then bm_weight_sum else 1
             | None \<Rightarrow> if bm_weight_sum > 0 then bm_weight_sum else 1);
          mp_nav =
            (case prev_mp_nav st of
               Some n \<Rightarrow> if n > 0 then n * (1 + mp_daily_return)
                         else bm_nav_base + (bm_nav_base * sum_values date_active_weights)
             | None \<Rightarrow> bm_nav_base + (bm_nav_base * sum_values date_active_weights))
      in (bm_nav_base, mp_nav))"

text \<open>
  The previous strategy weights a non-base date starts from (lines 3326-3341):
  those of the state, or BM weights when the state has none.
\<close>

definition start_weights :: "state \<Rightarrow> real dict option \<Rightarrow> real dict \<Rightarrow> real dict" where
  "start_weights st prev_date_bm date_bm_weights =
     (if prev_strategy_weights st = [] then
        (case prev_date_bm of
           Some bm_rows \<Rightarrow> fold (\<lambda>(n, w). dict_set n w) bm_rows (prev_bm_weights st)
         | None \<Rightarrow> date_bm_weights)
      else prev_strategy_weights st)"

text \<open>
  The body of the loop over \<^verbatim>\<open>dates\<close> (lines 3250-3762) for one date: the new
  state, the rows appended to \<^verbatim>\<open>results\<close> and the entry appended to
  \<^verbatim>\<open>daily_weight_summary\<close>.  A date before the base date and a date without
  stocks are skipped.
\<close>

definition process_date ::
  "(string list \<Rightarrow> string list) \<Rightarrow> bool \<Rightarrow> nat \<Rightarrow> real option dict \<Rightarrow> state \<Rightarrow> day_input
     \<Rightarrow> state \<times> row list \<times> summary option" where
  "process_date iter local_price_col base_actual_date base_prices st inp =
     (let date_obj = d_date inp;
          date_bm_weights = d_bm_weights inp;
          date_active_weights = d_active_weights inp
      in
      if date_obj < base_actual_date then (st, [], None)
      else
        let all_stocks_for_price = iter (keys date_bm_weights @ keys date_active_weights) in
        if all_stocks_for_price = [] then (st, [], None)
        else
          let price_rows = query_prices (d_stock_price inp) all_stocks_for_price;
              date_prices = prices_of price_rows;
              date_local_prices = local_prices_of local_price_col price_rows;
              is_base = (date_obj = base_actual_date);
              strategy_weights =
                (if is_base then base_strategy_weights iter date_bm_weights date_active_weights
                 else non_base_strategy_weights iter
                        (start_weights st (d_prev_date_bm inp) date_bm_weights)
                        (prev_prices st) date_bm_weights date_active_weights date_prices);
              st1 =
                (if is_base
                 then st\<lparr>prev_bm_weights := date_bm_weights,
                         prev_strategy_weights := strategy_weights,
                         prev_prices := date_prices\<rparr>
                 else st\<lparr>prev_bm_weights := date_bm_weights,
                         prev_strategy_weights := strategy_weights\<rparr>);
              all_stocks_for_result =
                (if is_base then iter (keys date_bm_weights @ keys date_active_weights)
                 else iter (keys strategy_weights @ keys date_bm_weights));
              rows1 = map (make_row is_base date_obj base_prices date_prices date_local_prices
                             date_bm_weights date_active_weights strategy_weights)
                          all_stocks_for_result;
              bm_weight_sum = sum_values date_bm_weights;
              strategy_weight_sum = sum_values strategy_weights;
              active_weight_sum = sum_values date_active_weights;
              weight_sum_diff = strategy_weight_sum - bm_weight_sum;
              navs =
                (if is_base then base_navs date_bm_weights date_active_weights
                 else non_base_navs st1 date_bm_weights date_active_weights date_prices);
              bm_nav_base = fst navs;
              mp_nav = snd navs;
              nav_diff = mp_nav - bm_nav_base;
              st2 = st1\<lparr>prev_bm_nav := Some bm_nav_base, prev_mp_nav := Some mp_nav\<rparr>;
              st3 = (if is_base then st2 else st2\<lparr>prev_prices := date_prices\<rparr>);
              entry = \<lparr> s_date = date_obj,
                        s_bm_weight_sum = bm_weight_sum,
                        s_strategy_weight_sum = strategy_weight_sum,
                        s_active_weight_sum = active_weight_sum,
                        s_weight_sum_diff = weight_sum_diff,
                        s_BM_NAV = bm_nav_base,
                        s_MP_NAV = mp_nav,
                        s_NAV_diff = nav_diff \<rparr>;
              all_stocks = iter (keys strategy_weights);
              rows2 =
                (if all_stocks \<noteq> [] then
                   (let price_rows2 = query_prices (d_stock_price inp) all_stocks;
                        date_prices2 = prices_of price_rows2;
                        date_local_prices2 = local_prices_of local_price_col price_rows2
                    in map (make_row is_base date_obj base_prices date_prices2 date_local_prices2
                              date_bm_weights date_active_weights strategy_weights)
                           all_stocks)
                 else [])
          in (st3, rows1 @ rows2, Some entry))"

text \<open>
  Whether the injection loop of a non-base date takes the branch of line 3416
  for some stock: a target weight of 1 or more.
\<close>

definition rejects_override :: "(string list \<Rightarrow> string list) \<Rightarrow> state \<Rightarrow> day_input \<Rightarrow> bool" where
  "rejects_override iter st inp =
     (let date_bm_weights = d_bm_weights inp;
          date_active_weights = d_active_weights inp;
          date_prices = prices_of (query_prices (d_stock_price inp)
                          (iter (keys date_bm_weights @ keys date_active_weights)));
          start = start_weights st (d_prev_date_bm inp) date_bm_weights;
          all_stocks = non_base_all_stocks iter start date_bm_weights date_active_weights;
          adjusted = adjusted_weights all_stocks start (prev_prices st) date_prices
      in list_ex (\<lambda>(stock_name, i). \<not> 1 - target_weight i > 0)
           (stocks_with_active_weight all_stocks adjusted date_active_weights))"

section \<open>Chained sector contributions\<close>

text \<open>
  The loop of \<^verbatim>\<open>get_daily_sector_contributions\<close> (lines 1729-1831) over the
  rows of \<^verbatim>\<open>performance_df\<close>.  The column \<^verbatim>\<open>dt\<close> holds dates (timestamps at
  midnight); a date is the number of its day.  Weight and price may be missing.
\<close>

record perf =
  p_dt :: nat
  p_gics_name :: string
  p_stock_name :: string
  p_weight :: "real option"
  p_price :: "real option"

text \<open>One entry of \<^verbatim>\<open>daily_contributions\<close>.\<close>

record contribution =
  c_dt :: nat
  c_gics_name :: string
  c_daily_contribution :: real
  c_cumulative_contribution :: real

text \<open>
  The rows of a date with a price that is present and positive and a weight
  that is present (lines 1747-1748, 1757-1758, 1777-1778), as
  (sector, stock, weight, price).
\<close>

definition valid_rows :: "perf list \<Rightarrow> nat \<Rightarrow> (string \<times> string \<times> real \<times> real) list" where
  "valid_rows df date =
     List.map_filter
       (\<lambda>r. if p_dt r = date then
               (case (p_price r, p_weight r) of
                  (Some p, Some w) \<Rightarrow>
                    if p > 0 then Some (p_gics_name r, p_stock_name r, w, p) else None
                | _ \<Rightarrow> None)
             else None)
       df"

text \<open>\<^verbatim>\<open>Series.unique()\<close>: the distinct values in order of first appearance.\<close>

definition unique :: "'a list \<Rightarrow> 'a list" where
  "unique xs = rev (remdups (rev xs))"

text \<open>
  The inner merge on \<^verbatim>\<open>stock_name\<close> (lines 1786-1797) with the columns
  \<^verbatim>\<open>ret\<close> and \<^verbatim>\<open>ret_contribution\<close> (lines 1801-1804): one entry
  (sector, ret_contribution) for each pair of a row of the previous date and a
  row of the current date with the same stock name.
\<close>

definition contribution_df ::
  "(string \<times> string \<times> real \<times> real) list \<Rightarrow> (string \<times> string \<times> real \<times> real) list
     \<Rightarrow> (string \<times> real) list" where
  "contribution_df prev_date_data current_date_data =
     concat (map (\<lambda>(gics_name, stock_name, prev_weight, prev_price).
                    map (\<lambda>(g, s, w, current_price).
                           (gics_name, ((current_price - prev_price) / prev_price) * 100 * prev_weight))
                        (filter (\<lambda>(g, s, w, current_price). s = stock_name) current_date_data))
                 prev_date_data)"

text \<open>\<^verbatim>\<open>groupby('gics_name')['ret_contribution'].sum().to_dict()\<close> (line 1807): the
  sectors in ascending order, each with the sum of its entries.\<close>

definition sector_contributions :: "(string \<times> real) list \<Rightarrow> real dict" where
  "sector_contributions cdf =
     map (\<lambda>g. (g, sum_list (map snd (filter (\<lambda>(g', c). g' = g) cdf))))
         (sort (remdups (map fst cdf)))"

text \<open>Setting the cumulative contribution of each sector of a date to zero (lines 1752-1753).\<close>

fun reset_loop :: "string list \<Rightarrow> real dict \<Rightarrow> real dict" where
  "reset_loop [] cum = cum"
| "reset_loop (gics_name # rest) cum = reset_loop rest (dict_set gics_name 0 cum)"

text \<open>The same with a row of zeros for each sector (lines 1766-1773).\<close>

fun first_loop ::
  "nat \<Rightarrow> string list \<Rightarrow> contribution list \<times> real dict \<Rightarrow> contribution list \<times> real dict" where
  "first_loop date [] (dc, cum) = (dc, cum)"
| "first_loop date (gics_name # rest) (dc, cum) =
     first_loop date rest
       (dc @ [\<lparr>c_dt = date, c_gics_name = gics_name, c_daily_contribution = 0,
                 c_cumulative_contribution = 0\<rparr>],
        dict_set gics_name 0 cum)"

text \<open>Adding the contributions of a date to the cumulative ones (lines 1810-1823).\<close>

fun accumulate_loop ::
  "nat \<Rightarrow> real dict \<Rightarrow> contribution list \<times> real dict \<Rightarrow> contribution list \<times> real dict" where
  "accumulate_loop date [] (dc, cum) = (dc, cum)"
| "accumulate_loop date ((gics_name, sector_contribution_value) # rest) (dc, cum) =
     (let cum0 = (if map_of cum gics_name = None then dict_set gics_name 0 cum else cum);
          daily_contribution = sector_contribution_value;
          cum1 = dict_set gics_name (dict_get cum0 gics_name 0 + daily_contribution) cum0
      in accumulate_loop date rest
           (dc @ [\<lparr>c_dt = date, c_gics_name = gics_name,
                     c_daily_contribution = daily_contribution,
                     c_cumulative_contribution = dict_get cum1 gics_name 0\<rparr>],
            cum1))"

text \<open>
  The loop over the sorted dates (lines 1738-1825).  The state is
  \<^verbatim>\<open>daily_contributions\<close>, \<^verbatim>\<open>sector_cumulative_contribution\<close> and \<^verbatim>\<open>prev_date\<close>.
\<close>

fun sector_loop ::
  "perf list \<Rightarrow> nat \<Rightarrow> nat \<Rightarrow> nat list \<Rightarrow> contribution list \<times> real dict \<times> nat option
     \<Rightarrow> contribution list" where
  "sector_loop df start_date final_date [] (dc, cum, prev_date) = dc"
| "sector_loop df start_date final_date (date # rest) (dc, cum, prev_date) =
     (if date < start_date then sector_loop df start_date final_date rest (dc, cum, prev_date)
      else if date > final_date then dc
      else if date = start_date then
        (let current_date_data = valid_rows df date in
         if current_date_data \<noteq> [] then
           sector_loop df start_date final_date rest
             (dc, reset_loop (unique (map fst current_date_data)) cum, Some date)
         else sector_loop df start_date final_date rest (dc, cum, prev_date))
      else
        (let current_date_data = valid_rows df date in
         if current_date_data = [] then
           sector_loop df start_date final_date rest (dc, cum, Some date)
         else
           (case prev_date of
              None \<Rightarrow>
                (case first_loop date (unique (map fst current_date_data)) (dc, cum) of
                   (dc', cum') \<Rightarrow>
                     sector_loop df start_date final_date rest (dc', cum', Some date))
            | Some pd \<Rightarrow>
                (let prev_date_data = valid_rows df pd in
                 if prev_date_data = [] then
                   sector_loop df start_date final_date rest (dc, cum, Some date)
                 else
                   (let cdf = contribution_df prev_date_data current_date_data in
                    if cdf \<noteq> [] then
                      (case accumulate_loop date (sector_contributions cdf) (dc, cum) of
                         (dc', cum') \<Rightarrow>
                           sector_loop df start_date final_date rest (dc', cum', Some date))
                    else sector_loop df start_date final_date rest (dc, cum, Some date))))))"

text \<open>\<^verbatim>\<open>dates = sorted(performance_df['dt'].unique())\<close>\<close>

definition dates_of :: "perf list \<Rightarrow> nat list" where
  "dates_of df = sort (remdups (map p_dt df))"

text \<open>
  The body of \<^verbatim>\<open>get_daily_sector_contributions\<close> from line 1729 on: the frame is
  sorted by date, sector and stock, the loop runs over its dates, and the result
  is sorted by date and sector.
\<close>

definition get_daily_sector_contributions :: "perf list \<Rightarrow> nat \<Rightarrow> nat \<Rightarrow> contribution list" where
  "get_daily_sector_contributions performance_df start_date final_date =
     (let df = sort_key (\<lambda>r. (p_dt r, p_gics_name r, p_stock_name r)) performance_df;
          daily_contributions =
            sector_loop df start_date final_date (dates_of df) ([], [], None)
      in if daily_contributions = [] then []
         else sort_key (\<lambda>r. (c_dt r, c_gics_name r)) daily_contributions)"

text \<open>
  What the merge computes for a sector: the sum of the entries of the sector,
  one for each pair of a valid row of the date \<open>p\<close> and a valid row of the date
  \<open>t\<close> with the same stock name.
\<close>

definition merged_sector_daily :: "perf list \<Rightarrow> nat \<Rightarrow> nat \<Rightarrow> string \<Rightarrow> real" where
  "merged_sector_daily df p t sector =
     sum_list (concat (map (\<lambda>(g, s, w, price_p).
                 if g = sector
                 then map (\<lambda>(g', s', w', price_t). ((price_t - price_p) / price_p) * 100 * w)
                        (filter (\<lambda>(g', s', w', price_t). s' = s) (valid_rows df t))
                 else [])
              (valid_rows df p)))"

text \<open>
  The chained daily contribution of a sector as the specification words it
  (section 4.4).  The row of an instrument on a date is the valid row with its
  name.  The instruments of a sector for the step from the date \<open>p\<close> to the
  date \<open>t\<close> are the stocks with a valid row of that sector on \<open>p\<close> and a valid
  row on \<open>t\<close>, each taken once.  The contribution of an instrument is its daily
  return, in percent, times its weight on \<open>p\<close>, and the contribution of the
  sector is the sum over its instruments.
\<close>

definition stock_row ::
  "(string \<times> string \<times> real \<times> real) list \<Rightarrow> string \<Rightarrow> (string \<times> string \<times> real \<times> real) option" where
  "stock_row rows stock_name = find (\<lambda>(g, s, w, price). s = stock_name) rows"

definition sector_instruments :: "perf list \<Rightarrow> nat \<Rightarrow> nat \<Rightarrow> string \<Rightarrow> string list" where
  "sector_instruments df p t sector =
     remdups (map (\<lambda>(g, s, w, price). s)
       (filter (\<lambda>(g, s, w, price). g = sector \<and> stock_row (valid_rows df t) s \<noteq> None)
          (valid_rows df p)))"



text \<open>
  The holdings have one row per instrument and date (section 3 of the
  specification): on every date of the frame the valid rows have different
  stock names.
\<close>

definition one_row_per_instrument :: "perf list \<Rightarrow> bool" where
  "one_row_per_instrument df =
     list_all (\<lambda>d. distinct (map (\<lambda>(g, s, w, price). s) (valid_rows df d))) (map p_dt df)"

text \<open>The date before \<open>t\<close> among the dates of the window, if there is one.\<close>

definition previous_date :: "nat list \<Rightarrow> nat \<Rightarrow> nat \<Rightarrow> nat option" where
  "previous_date dates start_date t =
     (let before = filter (\<lambda>d. start_date \<le> d \<and> d < t) dates
      in if before = [] then None else Some (last before))"

text \<open>The frame after line 1730, and the daily contribution of a sector on the
  date \<open>t\<close> as the specification words it: the sum over the instruments for the
  step from the date before \<open>t\<close>, zero when the window has no date before \<open>t\<close>.\<close>

definition sorted_frame :: "perf list \<Rightarrow> perf list" where
  "sorted_frame performance_df =
     sort_key (\<lambda>r. (p_dt r, p_gics_name r, p_stock_name r)) performance_df"


text \<open>
  The daily contribution of a sector on a date as the caller reads the result
  (the sector table of the performance page, \<^verbatim>\<open>sector_contributions.get(sector, 0.0)\<close>):
  that of the row of the date and the sector, 0.0 when the result has no such row.
\<close>

definition daily_of :: "contribution list \<Rightarrow> nat \<Rightarrow> string \<Rightarrow> real" where
  "daily_of result t sector =
     (case find (\<lambda>r. c_dt r = t \<and> c_gics_name r = sector) result of
        Some r \<Rightarrow> c_daily_contribution r
      | None \<Rightarrow> 0)"

text \<open>
  When the result has a row for a sector on the date \<open>t\<close>.  On the first date
  with data after the start of the window (no date before it in the window, or
  only the start date and that without valid rows) every sector with a valid
  row on \<open>t\<close> has one; on a later date the sectors with an instrument for the
  step from the date before.
\<close>

definition first_data_date :: "perf list \<Rightarrow> nat list \<Rightarrow> nat \<Rightarrow> nat \<Rightarrow> bool" where
  "first_data_date df dates start_date t =
     (case previous_date dates start_date t of
        None \<Rightarrow> True
      | Some p \<Rightarrow> p = start_date \<and> valid_rows df start_date = [])"

definition sector_reported :: "perf list \<Rightarrow> nat list \<Rightarrow> nat \<Rightarrow> nat \<Rightarrow> string \<Rightarrow> bool" where
  "sector_reported df dates start_date t sector =
     (if first_data_date df dates start_date t
      then sector \<in> fst ` set (valid_rows df t)
      else (case previous_date dates start_date t of
              None \<Rightarrow> False
            | Some p \<Rightarrow> sector_instruments df p t sector \<noteq> []))"

text \<open>The sums of the daily contributions of a sector, the condition on a row of
  the result, and the invariant of the loop after the dates \<open>seen\<close>.\<close>

definition merged_daily :: "perf list \<Rightarrow> nat list \<Rightarrow> nat \<Rightarrow> nat \<Rightarrow> string \<Rightarrow> real" where
  "merged_daily df dates start_date t sector =
     (case previous_date dates start_date t of
        None \<Rightarrow> 0
      | Some p \<Rightarrow> merged_sector_daily df p t sector)"

definition running_sum :: "contribution list \<Rightarrow> contribution \<Rightarrow> real" where
  "running_sum dc r =
     sum_list (map c_daily_contribution
       (filter (\<lambda>r'. c_gics_name r' = c_gics_name r \<and> c_dt r' \<le> c_dt r) dc))"

definition sector_total :: "contribution list \<Rightarrow> string \<Rightarrow> real" where
  "sector_total dc sector =
     sum_list (map c_daily_contribution (filter (\<lambda>r'. c_gics_name r' = sector) dc))"

definition row_ok ::
  "perf list \<Rightarrow> nat list \<Rightarrow> nat \<Rightarrow> nat \<Rightarrow> contribution list \<Rightarrow> contribution \<Rightarrow> bool" where
  "row_ok df dates start_date final_date dc r =
     (start_date < c_dt r \<and> c_dt r \<le> final_date
      \<and> c_daily_contribution r = merged_daily df dates start_date (c_dt r) (c_gics_name r)
      \<and> c_cumulative_contribution r = running_sum dc r)"

definition loop_inv ::
  "perf list \<Rightarrow> nat list \<Rightarrow> nat \<Rightarrow> nat \<Rightarrow> nat list \<Rightarrow> contribution list \<Rightarrow> real dict
     \<Rightarrow> nat option \<Rightarrow> bool" where
  "loop_inv df dates start_date final_date seen dc cum prev_date =
     ((\<forall>r \<in> set dc. c_dt r \<in> set seen \<and> row_ok df dates start_date final_date dc r)
      \<and> (\<forall>g. dict_get cum g 0 = sector_total dc g)
      \<and> (case prev_date of
            None \<Rightarrow>
              dc = []
              \<and> (filter (\<lambda>d. start_date \<le> d) seen = []
                  \<or> (filter (\<lambda>d. start_date \<le> d) seen = [start_date]
                      \<and> valid_rows df start_date = []))
          | Some p \<Rightarrow>
              filter (\<lambda>d. start_date \<le> d) seen \<noteq> []
              \<and> p = last (filter (\<lambda>d. start_date \<le> d) seen)))"

section \<open>Dictionaries and the loops of a date\<close>

lemma map_of_dict_set: "map_of (dict_set k v d) = (map_of d)(k \<mapsto> v)"
  by (induction d) (auto simp: fun_eq_iff)

lemma dict_get_dict_set:
  "dict_get (dict_set k v d) s x = (if s = k then v else dict_get d s x)"
  by (simp add: dict_get_def map_of_dict_set)

lemma dict_get_Nil: "dict_get [] s x = x"
  by (simp add: dict_get_def)

lemma map_of_adjusted:
  "map_of (map (\<lambda>k. (k, f k)) xs) s = (if s \<in> set xs then Some (f s) else None)"
  by (induction xs) auto

lemma dict_get_adjusted_weights:
  "s \<in> set all_stocks \<Longrightarrow>
   dict_get (adjusted_weights all_stocks prev pp dp) s 0 =
     drift (dict_get prev s 0) (price_get pp s) (price_get dp s)"
  by (simp add: adjusted_weights_def dict_get_def map_of_adjusted)

lemma swa_keys:
  "map fst (stocks_with_active_weight xs adj act) =
     filter (\<lambda>s. current_active_weight act s > 0) xs"
  by (induction xs) (auto simp: Let_def)

lemma swa_entry:
  "(s, i) \<in> set (stocks_with_active_weight xs adj act) \<Longrightarrow>
     s \<in> set xs \<and> current_active_weight act s > 0 \<and>
     i = \<lparr>adjusted_weight = dict_get adj s 0,
          target_weight = dict_get adj s 0 + current_active_weight act s,
          active_weight = current_active_weight act s\<rparr>"
  by (induction xs) (auto simp: Let_def split: if_splits)

lemma swa_distinct:
  "distinct xs \<Longrightarrow> distinct (map fst (stocks_with_active_weight xs adj act))"
  by (simp add: swa_keys)

lemma swa_map_of_None:
  "map_of (stocks_with_active_weight xs adj act) s = None \<longleftrightarrow>
     \<not> (s \<in> set xs \<and> current_active_weight act s > 0)"
proof -
  have "map_of (stocks_with_active_weight xs adj act) s = None \<longleftrightarrow>
        s \<notin> set (map fst (stocks_with_active_weight xs adj act))"
    by (simp add: map_of_eq_None_iff)
  then show ?thesis by (simp add: swa_keys)
qed

lemma inject_other:
  "s \<notin> fst ` set swa \<Longrightarrow>
   map_of (snd (snd (inject_loop swa nav awc sw))) s = map_of sw s \<and>
   map_of (fst (snd (inject_loop swa nav awc sw))) s = map_of awc s"
proof (induction swa arbitrary: nav awc sw)
  case Nil
  then show ?case by simp
next
  case (Cons p swa)
  obtain k i where p: "p = (k, i)" by (cases p)
  from Cons.prems p have ne: "s \<noteq> k" and rest: "s \<notin> fst ` set swa" by auto
  show ?case
    using Cons.IH [OF rest] ne
    by (simp add: p Let_def map_of_dict_set)
qed

lemma inject_weight:
  "distinct (map fst swa) \<Longrightarrow> (s, i) \<in> set swa \<Longrightarrow>
   dict_get (snd (snd (inject_loop swa nav awc sw))) s 0 =
     (if 1 - target_weight i > 0 then target_weight i else dict_get awc s 0)"
proof (induction swa arbitrary: nav awc sw)
  case Nil
  then show ?case by simp
next
  case (Cons p swa)
  obtain k j where p: "p = (k, j)" by (cases p)
  from Cons.prems p have dk: "k \<notin> fst ` set swa" and dr: "distinct (map fst swa)" by auto
  show ?case
  proof (cases "(s, i) = (k, j)")
    case True
    then have s: "s = k" and i: "i = j" by simp_all
    from dk s have "s \<notin> fst ` set swa" by simp
    from inject_other [OF this] show ?thesis
      by (simp add: p s i Let_def dict_get_def map_of_dict_set)
  next
    case False
    with Cons.prems p have mem: "(s, i) \<in> set swa" by auto
    with dk have ne: "s \<noteq> k" by force
    show ?thesis
      using Cons.IH [OF dr mem] ne
      by (simp add: p Let_def dict_get_dict_set)
  qed
qed

lemma inject_nav_gen:
  "distinct (map fst swa) \<Longrightarrow> \<forall>s \<in> fst ` set swa. map_of awc s = map_of adjusted s \<Longrightarrow>
   fst (inject_loop swa nav awc sw) = foldl (inject_step adjusted) nav swa"
proof (induction swa arbitrary: nav awc sw)
  case Nil
  then show ?case by simp
next
  case (Cons p swa)
  obtain k j where p: "p = (k, j)" by (cases p)
  from Cons.prems p have dk: "k \<notin> fst ` set swa" and dr: "distinct (map fst swa)" by auto
  from Cons.prems(2) p have hd: "dict_get awc k 0 = dict_get adjusted k 0"
    by (simp add: dict_get_def)
  have rest: "\<forall>s \<in> fst ` set swa. map_of (dict_set k v awc) s = map_of adjusted s" for v
    using Cons.prems(2) dk by (auto simp: map_of_dict_set)
  have rest0: "\<forall>s \<in> fst ` set swa. map_of awc s = map_of adjusted s"
    using Cons.prems(2) by auto
  show ?case
    using Cons.IH [OF dr rest] Cons.IH [OF dr rest0] hd
    by (simp add: p Let_def inject_step_def)
qed

lemma dilute_weight:
  "dict_get (dilute_loop xs swa adj nav sw) s 0 =
     (if s \<in> set xs \<and> map_of swa s = None
      then (if nav > 0 then dict_get adj s 0 / nav else dict_get adj s 0)
      else dict_get sw s 0)"
  by (induction xs arbitrary: sw) (auto simp: Let_def dict_get_dict_set)


lemma apply_targeting_nonempty:
  assumes "stocks_with_active_weight all_stocks adjusted act \<noteq> []"
  shows "apply_targeting all_stocks adjusted act =
     dilute_loop all_stocks (stocks_with_active_weight all_stocks adjusted act) adjusted
       (nav_final (stocks_with_active_weight all_stocks adjusted act) adjusted)
       (snd (snd (inject_loop (stocks_with_active_weight all_stocks adjusted act)
                    (nav_old adjusted) adjusted [])))"
  using assms by (simp add: apply_targeting_def nav_final_def Let_def split: prod.splits)

lemma apply_targeting_empty:
  "stocks_with_active_weight all_stocks adjusted act = [] \<Longrightarrow>
   apply_targeting all_stocks adjusted act = adjusted"
  by (simp add: apply_targeting_def)

lemma weight_not_overridden:
  assumes ne: "stocks_with_active_weight all_stocks adjusted act \<noteq> []"
    and mem: "s \<in> set all_stocks"
    and no: "map_of (stocks_with_active_weight all_stocks adjusted act) s = None"
  shows "dict_get (apply_targeting all_stocks adjusted act) s 0 =
     (if nav_final (stocks_with_active_weight all_stocks adjusted act) adjusted > 0
      then dict_get adjusted s 0
             / nav_final (stocks_with_active_weight all_stocks adjusted act) adjusted
      else dict_get adjusted s 0)"
  using mem no by (simp add: apply_targeting_nonempty [OF ne] dilute_weight)

lemma weight_overridden:
  assumes d: "distinct all_stocks"
    and mem: "(s, i) \<in> set (stocks_with_active_weight all_stocks adjusted act)"
  shows "dict_get (apply_targeting all_stocks adjusted act) s 0 =
     (if 1 - target_weight i > 0 then target_weight i else dict_get adjusted s 0)"
proof -
  let ?swa = "stocks_with_active_weight all_stocks adjusted act"
  from mem have ne: "?swa \<noteq> []" by auto
  have dk: "distinct (map fst ?swa)" by (rule swa_distinct [OF d])
  from mem dk have some: "map_of ?swa s = Some i" by simp
  have "dict_get (apply_targeting all_stocks adjusted act) s 0 =
          dict_get (snd (snd (inject_loop ?swa (nav_old adjusted) adjusted []))) s 0"
    using some by (simp add: apply_targeting_nonempty [OF ne] dilute_weight)
  also have "\<dots> = (if 1 - target_weight i > 0 then target_weight i else dict_get adjusted s 0)"
    by (rule inject_weight [OF dk mem])
  finally show ?thesis .
qed

lemma nav_final_foldl:
  "distinct (map fst swa) \<Longrightarrow> nav_final swa adjusted = foldl (inject_step adjusted) (nav_old adjusted) swa"
  unfolding nav_final_def by (rule inject_nav_gen) simp_all

lemma foldl_filter_skip:
  "(\<And>a x. x \<in> set xs \<Longrightarrow> \<not> P x \<Longrightarrow> f a x = a) \<Longrightarrow> foldl f a (filter P xs) = foldl f a xs"
  by (induction xs arbitrary: a) simp_all

lemma base_loop_weight:
  "dict_get (base_loop xs bm act sw) s 0 =
     (if s \<in> set xs then dict_get bm s 0 + dict_get act s 0 else dict_get sw s 0)"
  by (induction xs arbitrary: sw) (auto simp: dict_get_dict_set)

lemma dict_get_absent: "s \<notin> set (keys d) \<Longrightarrow> dict_get d s x = x"
proof -
  assume "s \<notin> set (keys d)"
  then have "map_of d s = None" by (simp add: keys_def map_of_eq_None_iff)
  then show ?thesis by (simp add: dict_get_def)
qed

lemma base_strategy_weight:
  assumes "set_iteration iter"
  shows "dict_get (base_strategy_weights iter bm act) s 0 = dict_get bm s 0 + dict_get act s 0"
proof -
  from assms have st: "set (iter (keys bm @ keys act)) = set (keys bm) \<union> set (keys act)"
    by (simp add: set_iteration_def)
  show ?thesis
  proof (cases "s \<in> set (keys bm) \<union> set (keys act)")
    case True
    with st show ?thesis by (simp add: base_strategy_weights_def base_loop_weight)
  next
    case False
    then have "dict_get bm s 0 = (0::real)" "dict_get act s 0 = (0::real)"
      by (simp_all add: dict_get_absent)
    with False st show ?thesis
      by (simp add: base_strategy_weights_def base_loop_weight dict_get_Nil)
  qed
qed

lemma base_navs_product:
  "snd (base_navs bm act) = fst (base_navs bm act) * (1 + sum_values act)"
  by (simp add: base_navs_def Let_def algebra_simps)

lemma make_row_fields:
  "r_stock_name (make_row b d bp dp lp bm act sw s) = s"
  "r_strategy_weight (make_row b d bp dp lp bm act sw s) = dict_get sw s 0"
  "r_bm_weight (make_row b d bp dp lp bm act sw s) = dict_get bm s 0"
  "r_active_weight (make_row b d bp dp lp bm act sw s) =
     (if row_active_weight act s > 0 then row_active_weight act s else 0)"
  by (simp_all add: make_row_def Let_def)

lemma iter_nonempty:
  "set_iteration iter \<Longrightarrow> xs \<noteq> [] \<Longrightarrow> iter xs \<noteq> []"
proof -
  assume a: "set_iteration iter" and b: "xs \<noteq> []"
  then have "set (iter xs) = set xs" by (simp add: set_iteration_def)
  with b show ?thesis by (metis set_empty)
qed

lemma engine_match_loop_step:
  "engine_match_loop sc ((mp, w) # rest) cur =
     (if engine_matches sc mp then w else engine_match_loop sc rest cur)"
  by (auto simp: engine_matches_def Let_def)

lemma engine_match_loop_find:
  "engine_match_loop sc act cur =
     (case find (\<lambda>(mp, w). engine_matches sc mp) act of
        Some (mp, w) \<Rightarrow> w
      | None \<Rightarrow> cur)"
proof (induction act)
  case Nil
  then show ?case by simp
next
  case (Cons p act)
  obtain mp w where p: "p = (mp, w)" by (cases p)
  from Cons.IH show ?case
    unfolding p engine_match_loop_step by simp
qed

lemma row_match_loop_step:
  "row_match_loop s ((mp, w) # rest) cur =
     (if row_matches s mp then w else row_match_loop s rest cur)"
  by (auto simp: row_matches_def Let_def)

lemma row_match_loop_find:
  "row_match_loop s act cur =
     (case find (\<lambda>(mp, w). row_matches s mp) act of
        Some (mp, w) \<Rightarrow> w
      | None \<Rightarrow> cur)"
proof (induction act)
  case Nil
  then show ?case by simp
next
  case (Cons p act)
  obtain mp w where p: "p = (mp, w)" by (cases p)
  from Cons.IH show ?case
    unfolding p row_match_loop_step by simp
qed

lemma negative_delta_resolved:
  "dict_get act s 0 \<noteq> 0 \<Longrightarrow>
   current_active_weight act s = dict_get act s 0 \<and> row_active_weight act s = dict_get act s 0"
  by (simp add: current_active_weight_def row_active_weight_def Let_def)

section \<open>The loop over the dates of the sector contributions\<close>

lemma reset_loop_get:
  "dict_get (reset_loop gs cum) g 0 = (if g \<in> set gs then 0 else dict_get cum g 0)"
  by (induction gs arbitrary: cum) (auto simp: dict_get_dict_set)

lemma first_loop_result:
  "first_loop date gs (dc, cum) =
     (dc @ map (\<lambda>g. \<lparr>c_dt = date, c_gics_name = g, c_daily_contribution = 0,
                      c_cumulative_contribution = 0\<rparr>) gs,
      reset_loop gs cum)"
  by (induction gs arbitrary: dc cum) simp_all

lemma accumulate_loop_result:
  "distinct (map fst sc) \<Longrightarrow>
   fst (accumulate_loop date sc (dc, cum)) =
     dc @ map (\<lambda>(g, v). \<lparr>c_dt = date, c_gics_name = g, c_daily_contribution = v,
                          c_cumulative_contribution = dict_get cum g 0 + v\<rparr>) sc
   \<and> (\<forall>g. dict_get (snd (accumulate_loop date sc (dc, cum))) g 0 =
            dict_get cum g 0 + (case map_of sc g of Some v \<Rightarrow> v | None \<Rightarrow> 0))"
proof (induction sc arbitrary: dc cum)
  case Nil
  then show ?case by simp
next
  case (Cons p sc)
  obtain k v where p: "p = (k, v)" by (cases p)
  from Cons.prems p have nk: "k \<notin> fst ` set sc" and d: "distinct (map fst sc)" by auto
  let ?cum0 = "if map_of cum k = None then dict_set k 0 cum else cum"
  let ?cum1 = "dict_set k (dict_get ?cum0 k 0 + v) ?cum0"
  let ?row = "\<lparr>c_dt = date, c_gics_name = k, c_daily_contribution = v,
                 c_cumulative_contribution = dict_get ?cum1 k 0\<rparr>"
  have c0: "dict_get ?cum0 g 0 = dict_get cum g 0" for g
    by (auto simp: dict_get_dict_set) (simp add: dict_get_def)
  have c1: "dict_get ?cum1 g 0 = (if g = k then dict_get cum k 0 + v else dict_get cum g 0)" for g
    by (simp only: dict_get_dict_set c0)
  have step: "accumulate_loop date (p # sc) (dc, cum) = accumulate_loop date sc (dc @ [?row], ?cum1)"
    by (simp add: p Let_def)
  have rows: "map (\<lambda>(g, v). \<lparr>c_dt = date, c_gics_name = g, c_daily_contribution = v,
                          c_cumulative_contribution = dict_get ?cum1 g 0 + v\<rparr>) sc
            = map (\<lambda>(g, v). \<lparr>c_dt = date, c_gics_name = g, c_daily_contribution = v,
                          c_cumulative_contribution = dict_get cum g 0 + v\<rparr>) sc"
  proof (rule map_cong [OF refl])
    fix x assume x: "x \<in> set sc"
    obtain g w where gw: "x = (g, w)" by (cases x)
    with x nk have "g \<noteq> k" by force
    then show "(case x of (g, v) \<Rightarrow> \<lparr>c_dt = date, c_gics_name = g, c_daily_contribution = v,
                          c_cumulative_contribution = dict_get ?cum1 g 0 + v\<rparr>)
             = (case x of (g, v) \<Rightarrow> \<lparr>c_dt = date, c_gics_name = g, c_daily_contribution = v,
                          c_cumulative_contribution = dict_get cum g 0 + v\<rparr>)"
      unfolding gw by (simp only: c1 prod.case if_False)
  qed
  have mk: "map_of sc k = None" using nk by (simp add: map_of_eq_None_iff)
  note ih = Cons.IH [OF d, of "dc @ [?row]" ?cum1]
  have 1: "fst (accumulate_loop date (p # sc) (dc, cum)) =
     dc @ map (\<lambda>(g, v). \<lparr>c_dt = date, c_gics_name = g, c_daily_contribution = v,
                          c_cumulative_contribution = dict_get cum g 0 + v\<rparr>) (p # sc)"
    unfolding step using ih rows by (simp add: p c1)
  have 2: "dict_get (snd (accumulate_loop date (p # sc) (dc, cum))) g 0 =
            dict_get cum g 0 + (case map_of (p # sc) g of Some v \<Rightarrow> v | None \<Rightarrow> 0)" for g
  proof -
    from ih have "dict_get (snd (accumulate_loop date (p # sc) (dc, cum))) g 0 =
        dict_get ?cum1 g 0 + (case map_of sc g of Some v \<Rightarrow> v | None \<Rightarrow> 0)"
      unfolding step by blast
    then show ?thesis using mk by (simp add: c1 p)
  qed
  from 1 2 show ?case by blast
qed

lemma sector_contributions_keys:
  "map fst (sector_contributions cdf) = sort (remdups (map fst cdf))"
  by (simp add: sector_contributions_def comp_def)

lemma sector_contributions_distinct: "distinct (map fst (sector_contributions cdf))"
  by (simp add: sector_contributions_keys)

lemma sector_contributions_value:
  "(g, v) \<in> set (sector_contributions cdf) \<Longrightarrow>
   v = sum_list (map snd (filter (\<lambda>(g', c). g' = g) cdf))"
  by (auto simp: sector_contributions_def)

lemma filter_sector_map:
  "sum_list (map snd (filter (\<lambda>(g', c). g' = sector) (map (\<lambda>x. (g, f x)) xs))) =
   sum_list (if g = sector then map f xs else [])"
  by (induction xs) auto

lemma contribution_df_Cons:
  "contribution_df ((g, s, w, pp) # ls) rs =
     map (\<lambda>x. (g, (case x of (g', s', w', price_t) \<Rightarrow> ((price_t - pp) / pp) * 100 * w)))
         (filter (\<lambda>(g', s', w', price_t). s' = s) rs)
     @ contribution_df ls rs"
  by (simp add: contribution_df_def split_def)

lemma contribution_df_sector:
  "sum_list (map snd (filter (\<lambda>(g', c). g' = sector) (contribution_df ls rs))) =
   sum_list (concat (map (\<lambda>(g, s, w, price_p).
                 if g = sector
                 then map (\<lambda>(g', s', w', price_t). ((price_t - price_p) / price_p) * 100 * w)
                        (filter (\<lambda>(g', s', w', price_t). s' = s) rs)
                 else [])
              ls))"
proof (induction ls)
  case Nil
  then show ?case by (simp add: contribution_df_def)
next
  case (Cons l ls)
  obtain g s w pp where l: "l = (g, s, w, pp)" by (cases l)
  show ?case
    unfolding l contribution_df_Cons
    by (simp only: filter_append map_append sum_list_append filter_sector_map Cons.IH
          list.map concat.simps prod.case)
qed

lemma accumulated_value:
  assumes "(g, v) \<in> set (sector_contributions (contribution_df (valid_rows df p) (valid_rows df t)))"
  shows "v = merged_sector_daily df p t g"
  using sector_contributions_value [OF assms]
  by (simp add: contribution_df_sector merged_sector_daily_def)

lemma sector_total_append:
  "sector_total (dc @ new) g = sector_total dc g + sector_total new g"
  by (simp add: sector_total_def)

lemma running_sum_append:
  "running_sum (dc @ new) r = running_sum dc r + running_sum new r"
  by (simp add: running_sum_def)

lemma sector_total_new:
  "distinct (map fst sc) \<Longrightarrow>
   sector_total (map (\<lambda>(g, v). \<lparr>c_dt = date, c_gics_name = g, c_daily_contribution = v,
                          c_cumulative_contribution = f g v\<rparr>) sc) sector =
     (case map_of sc sector of Some v \<Rightarrow> v | None \<Rightarrow> 0)"
proof (induction sc)
  case Nil
  then show ?case by (simp add: sector_total_def)
next
  case (Cons p sc)
  obtain k v where p: "p = (k, v)" by (cases p)
  from Cons.prems p have nk: "k \<notin> fst ` set sc" and d: "distinct (map fst sc)" by auto
  then have mk: "map_of sc k = None" by (simp add: map_of_eq_None_iff)
  from Cons.IH [OF d] mk show ?case
    by (auto simp: p sector_total_def)
qed

lemma running_sum_later:
  assumes "\<forall>r' \<in> set new. c_dt r < c_dt r'"
  shows "running_sum new r = 0"
proof -
  from assms have "filter (\<lambda>r'. c_gics_name r' = c_gics_name r \<and> c_dt r' \<le> c_dt r) new = []"
    by (auto simp: filter_empty_conv)
  then show ?thesis by (simp add: running_sum_def)
qed

lemma running_sum_all:
  assumes "\<forall>r' \<in> set dc. c_dt r' \<le> c_dt r"
  shows "running_sum dc r = sector_total dc (c_gics_name r)"
proof -
  from assms have "filter (\<lambda>r'. c_gics_name r' = c_gics_name r \<and> c_dt r' \<le> c_dt r) dc
      = filter (\<lambda>r'. c_gics_name r' = c_gics_name r) dc"
    by (intro filter_cong) auto
  then show ?thesis by (simp add: running_sum_def sector_total_def)
qed

lemma seen_before:
  assumes "sorted (seen @ date # rest)" "distinct (seen @ date # rest)" "d \<in> set seen"
  shows "d < (date::nat)"
proof -
  from assms(1,3) have "d \<le> date" by (auto simp: sorted_append)
  moreover from assms(2,3) have "d \<noteq> date" by auto
  ultimately show ?thesis by simp
qed

lemma rest_after:
  assumes "sorted (seen @ date # rest)" "distinct (seen @ date # rest)" "d \<in> set rest"
  shows "(date::nat) < d"
proof -
  from assms(1,3) have "date \<le> d" by (auto simp: sorted_append)
  moreover from assms(2,3) have "d \<noteq> date" by auto
  ultimately show ?thesis by simp
qed

lemma window_before:
  assumes s: "sorted (seen @ (date::nat) # rest)" and d: "distinct (seen @ date # rest)"
  shows "filter (\<lambda>x. start_date \<le> x \<and> x < date) (seen @ date # rest)
           = filter (\<lambda>x. start_date \<le> x) seen"
proof -
  have 1: "filter (\<lambda>x. start_date \<le> x \<and> x < date) seen = filter (\<lambda>x. start_date \<le> x) seen"
    using seen_before [OF s d] by (intro filter_cong) auto
  have 2: "filter (\<lambda>x. start_date \<le> x \<and> x < date) rest = []"
  proof -
    have "\<not> (start_date \<le> x \<and> x < date)" if "x \<in> set rest" for x
      using rest_after [OF s d that] by simp
    then show ?thesis by (simp add: filter_empty_conv)
  qed
  from 1 2 show ?thesis by simp
qed

lemma previous_date_seen:
  assumes "sorted (seen @ (date::nat) # rest)" "distinct (seen @ date # rest)"
  shows "previous_date (seen @ date # rest) start_date date =
     (if filter (\<lambda>x. start_date \<le> x) seen = [] then None
      else Some (last (filter (\<lambda>x. start_date \<le> x) seen)))"
  by (simp only: previous_date_def window_before [OF assms] Let_def)

lemma loop_inv_rows:
  "loop_inv df D start final seen dc cum prev \<Longrightarrow> r \<in> set dc \<Longrightarrow>
     c_dt r \<in> set seen \<and> row_ok df D start final dc r"
  by (simp add: loop_inv_def)

lemma loop_inv_cum:
  "loop_inv df D start final seen dc cum prev \<Longrightarrow> dict_get cum g 0 = sector_total dc g"
  by (simp add: loop_inv_def)

lemma map_of_distinct_Some:
  "distinct (map fst sc) \<Longrightarrow> (g, v) \<in> set sc \<Longrightarrow> map_of sc g = Some v"
  by simp

lemma inv_emit:
  fixes date :: nat
  assumes inv: "loop_inv df D start final seen dc cum prev"
    and D: "D = seen @ date # rest" and so: "sorted D" and di: "distinct D"
    and win: "start < date" "date \<le> final"
    and dist: "distinct (map fst sc)"
    and daily: "\<And>g v. (g, v) \<in> set sc \<Longrightarrow> v = merged_daily df D start date g"
    and cum': "\<And>g. dict_get cum' g 0 =
                  dict_get cum g 0 + (case map_of sc g of Some v \<Rightarrow> v | None \<Rightarrow> 0)"
  shows "loop_inv df D start final (seen @ [date])
           (dc @ map (\<lambda>(g, v). \<lparr>c_dt = date, c_gics_name = g, c_daily_contribution = v,
                                 c_cumulative_contribution = dict_get cum g 0 + v\<rparr>) sc)
           cum' (Some date)"
proof -
  let ?new = "map (\<lambda>(g, v). \<lparr>c_dt = date, c_gics_name = g, c_daily_contribution = v,
                                 c_cumulative_contribution = dict_get cum g 0 + v\<rparr>) sc"
  have before: "d < date" if "d \<in> set seen" for d
    using seen_before [OF so [unfolded D] di [unfolded D] that] .
  have new_dt: "c_dt r = date" if "r \<in> set ?new" for r
    using that by auto
  have tot_new: "sector_total ?new g = (case map_of sc g of Some v \<Rightarrow> v | None \<Rightarrow> 0)" for g
    by (rule sector_total_new [OF dist])
  have old: "c_dt r \<in> set (seen @ [date]) \<and> row_ok df D start final (dc @ ?new) r"
    if r: "r \<in> set dc" for r
  proof -
    from loop_inv_rows [OF inv r] have s: "c_dt r \<in> set seen" and ok: "row_ok df D start final dc r"
      by simp_all
    have "\<forall>r' \<in> set ?new. c_dt r < c_dt r'"
    proof
      fix r' assume "r' \<in> set ?new"
      from new_dt [OF this] before [OF s] show "c_dt r < c_dt r'" by simp
    qed
    then have "running_sum ?new r = 0" by (rule running_sum_later)
    then have "running_sum (dc @ ?new) r = running_sum dc r"
      by (simp add: running_sum_append)
    with ok s show ?thesis by (simp add: row_ok_def)
  qed
  have new: "c_dt r \<in> set (seen @ [date]) \<and> row_ok df D start final (dc @ ?new) r"
    if r: "r \<in> set ?new" for r
  proof -
    from r obtain g v where gv: "(g, v) \<in> set sc"
      and rr: "r = \<lparr>c_dt = date, c_gics_name = g, c_daily_contribution = v,
                    c_cumulative_contribution = dict_get cum g 0 + v\<rparr>"
      by auto
    have dt: "c_dt r = date" and gn: "c_gics_name r = g" by (simp_all add: rr)
    have "\<forall>r' \<in> set dc. c_dt r' \<le> c_dt r"
    proof
      fix r' assume "r' \<in> set dc"
      from loop_inv_rows [OF inv this] have "c_dt r' \<in> set seen" by simp
      from before [OF this] dt show "c_dt r' \<le> c_dt r" by simp
    qed
    then have a: "running_sum dc r = sector_total dc g"
      unfolding gn [symmetric] by (rule running_sum_all)
    have "\<forall>r' \<in> set ?new. c_dt r' \<le> c_dt r"
    proof
      fix r' assume "r' \<in> set ?new"
      from new_dt [OF this] dt show "c_dt r' \<le> c_dt r" by simp
    qed
    then have "running_sum ?new r = sector_total ?new g"
      unfolding gn [symmetric] by (rule running_sum_all)
    also have "\<dots> = v"
      by (simp only: tot_new map_of_distinct_Some [OF dist gv] option.case)
    finally have b: "running_sum ?new r = v" .
    have rs: "running_sum (dc @ ?new) r = sector_total dc g + v"
      by (simp only: running_sum_append a b)
    have cc: "c_cumulative_contribution r = dict_get cum g 0 + v"
      by (simp add: rr)
    have "dict_get cum g 0 = sector_total dc g" by (rule loop_inv_cum [OF inv])
    with cc have "c_cumulative_contribution r = sector_total dc g + v" by simp
    then have c: "c_cumulative_contribution r = running_sum (dc @ ?new) r"
      by (simp only: rs)
    have e: "c_daily_contribution r = merged_daily df D start (c_dt r) (c_gics_name r)"
      using daily [OF gv] by (simp add: rr)
    from c e win dt show ?thesis by (simp add: row_ok_def)
  qed
  have rows: "\<forall>r \<in> set (dc @ ?new). c_dt r \<in> set (seen @ [date])
                \<and> row_ok df D start final (dc @ ?new) r"
  proof
    fix r assume "r \<in> set (dc @ ?new)"
    then have "r \<in> set dc \<or> r \<in> set ?new" by simp
    then show "c_dt r \<in> set (seen @ [date]) \<and> row_ok df D start final (dc @ ?new) r"
    proof
      assume "r \<in> set dc"
      then show ?thesis by (rule old)
    next
      assume "r \<in> set ?new"
      then show ?thesis by (rule new)
    qed
  qed
  have tot: "\<forall>g. dict_get cum' g 0 = sector_total (dc @ ?new) g"
  proof
    fix g
    have "dict_get cum' g 0 = dict_get cum g 0 + (case map_of sc g of Some v \<Rightarrow> v | None \<Rightarrow> 0)"
      by (rule cum')
    also have "\<dots> = sector_total dc g + sector_total ?new g"
      by (simp only: tot_new loop_inv_cum [OF inv, where g = g])
    also have "\<dots> = sector_total (dc @ ?new) g"
      by (simp only: sector_total_append)
    finally show "dict_get cum' g 0 = sector_total (dc @ ?new) g" .
  qed
  have pv1: "filter (\<lambda>d. start \<le> d) (seen @ [date]) \<noteq> []"
    using win by simp
  have pv2: "date = last (filter (\<lambda>d. start \<le> d) (seen @ [date]))"
    using win by simp
  show ?thesis
    unfolding loop_inv_def option.case by (intro conjI rows tot pv1 pv2)
qed

lemma inv_keep:
  fixes date :: nat
  assumes inv: "loop_inv df D start final seen dc cum prev"
    and D: "D = seen @ date # rest" and so: "sorted D" and di: "distinct D"
    and win: "start < date" "date \<le> final"
  shows "loop_inv df D start final (seen @ [date]) dc cum (Some date)"
  using inv_emit [OF inv D so di win, of "[]" cum] by simp

lemma inv_skip:
  fixes date :: nat
  assumes inv: "loop_inv df D start final seen dc cum prev" and lt: "date < start"
  shows "loop_inv df D start final (seen @ [date]) dc cum prev"
proof -
  from lt have f: "filter (\<lambda>d. start \<le> d) (seen @ [date]) = filter (\<lambda>d. start \<le> d) seen"
    by simp
  from inv show ?thesis
    unfolding loop_inv_def f by auto
qed

lemma inv_at_start:
  assumes inv: "loop_inv df D start final seen dc cum prev"
    and D: "D = seen @ start # rest" and so: "sorted D" and di: "distinct D"
  shows "prev = None \<and> dc = [] \<and> (\<forall>g. dict_get cum g 0 = 0)
         \<and> filter (\<lambda>d. start \<le> d) seen = []"
proof -
  have "\<not> start \<le> d" if "d \<in> set seen" for d
    using seen_before [OF so [unfolded D] di [unfolded D] that] by simp
  then have e: "filter (\<lambda>d. start \<le> d) seen = []" by (simp add: filter_empty_conv)
  from inv e have p: "prev = None" and dc: "dc = []"
    unfolding loop_inv_def by (cases prev; simp)+
  from loop_inv_cum [OF inv] dc have "\<forall>g. dict_get cum g 0 = 0"
    by (simp add: sector_total_def)
  with p dc e show ?thesis by simp
qed

lemma inv_start_nonempty:
  assumes inv: "loop_inv df D start final seen dc cum prev"
    and D: "D = seen @ start # rest" and so: "sorted D" and di: "distinct D"
  shows "loop_inv df D start final (seen @ [start]) dc (reset_loop gs cum) (Some start)"
proof -
  from inv_at_start [OF inv D so di]
  have dc: "dc = []" and z: "\<forall>g. dict_get cum g 0 = 0"
    and e: "filter (\<lambda>d. start \<le> d) seen = []" by simp_all
  show ?thesis
    unfolding loop_inv_def by (simp add: dc e reset_loop_get z sector_total_def)
qed

lemma inv_start_empty:
  assumes inv: "loop_inv df D start final seen dc cum prev"
    and D: "D = seen @ start # rest" and so: "sorted D" and di: "distinct D"
    and v: "valid_rows df start = []"
  shows "loop_inv df D start final (seen @ [start]) dc cum prev"
proof -
  from inv_at_start [OF inv D so di]
  have p: "prev = None" and dc: "dc = []" and z: "\<forall>g. dict_get cum g 0 = 0"
    and e: "filter (\<lambda>d. start \<le> d) seen = []" by simp_all
  show ?thesis
    unfolding loop_inv_def by (simp add: p dc e z v sector_total_def)
qed

lemma distinct_unique: "distinct (unique xs)"
  by (simp add: unique_def)

lemma inv_first:
  fixes date :: nat
  assumes inv: "loop_inv df D start final seen dc cum None"
    and D: "D = seen @ date # rest" and so: "sorted D" and di: "distinct D"
    and win: "start < date" "date \<le> final"
    and gs: "distinct gs"
  shows "loop_inv df D start final (seen @ [date])
           (fst (first_loop date gs (dc, cum))) (snd (first_loop date gs (dc, cum))) (Some date)"
proof -
  from inv have dc: "dc = []"
    and w: "filter (\<lambda>d. start \<le> d) seen = []
            \<or> (filter (\<lambda>d. start \<le> d) seen = [start] \<and> valid_rows df start = [])"
    unfolding loop_inv_def by simp_all
  from loop_inv_cum [OF inv] dc have z: "dict_get cum g 0 = 0" for g
    by (simp add: sector_total_def)
  let ?sc = "map (\<lambda>g. (g, 0::real)) gs"
  have dist: "distinct (map fst ?sc)" using gs by (simp add: comp_def)
  have pd: "previous_date D start date =
     (if filter (\<lambda>x. start \<le> x) seen = [] then None
      else Some (last (filter (\<lambda>x. start \<le> x) seen)))"
    unfolding D by (rule previous_date_seen [OF so [unfolded D] di [unfolded D]])
  have ex: "merged_daily df D start date g = 0" for g
    using w by (auto simp: merged_daily_def pd merged_sector_daily_def)
  have daily: "v = merged_daily df D start date g" if "(g, v) \<in> set ?sc" for g v
    using that by (auto simp: ex)
  have mo: "(case map_of ?sc g of Some v \<Rightarrow> v | None \<Rightarrow> 0) = 0" for g
    by (induction gs) auto
  have cum': "dict_get (reset_loop gs cum) g 0 =
      dict_get cum g 0 + (case map_of ?sc g of Some v \<Rightarrow> v | None \<Rightarrow> 0)" for g
    by (simp add: reset_loop_get z mo)
  have rows: "map (\<lambda>(g, v). \<lparr>c_dt = date, c_gics_name = g, c_daily_contribution = v,
                                 c_cumulative_contribution = dict_get cum g 0 + v\<rparr>) ?sc
      = map (\<lambda>g. \<lparr>c_dt = date, c_gics_name = g, c_daily_contribution = 0,
                      c_cumulative_contribution = 0\<rparr>) gs"
    by (simp add: z comp_def)
  show ?thesis
    unfolding first_loop_result fst_conv snd_conv rows [symmetric]
    by (rule inv_emit [OF inv D so di win dist daily cum'])
qed

lemma inv_accumulate:
  fixes date :: nat
  assumes inv: "loop_inv df D start final seen dc cum (Some pd)"
    and D: "D = seen @ date # rest" and so: "sorted D" and di: "distinct D"
    and win: "start < date" "date \<le> final"
    and sc: "sc = sector_contributions (contribution_df (valid_rows df pd) (valid_rows df date))"
  shows "loop_inv df D start final (seen @ [date])
           (fst (accumulate_loop date sc (dc, cum))) (snd (accumulate_loop date sc (dc, cum)))
           (Some date)"
proof -
  from inv have w: "filter (\<lambda>d. start \<le> d) seen \<noteq> []"
    and p: "pd = last (filter (\<lambda>d. start \<le> d) seen)"
    unfolding loop_inv_def by simp_all
  have dist: "distinct (map fst sc)" unfolding sc by (rule sector_contributions_distinct)
  have pdt: "previous_date D start date = Some pd"
    unfolding D previous_date_seen [OF so [unfolded D] di [unfolded D]] using w p by simp
  have daily: "v = merged_daily df D start date g" if "(g, v) \<in> set sc" for g v
    using accumulated_value [OF that [unfolded sc]] by (simp add: merged_daily_def pdt)
  note res = accumulate_loop_result [OF dist, of date dc cum]
  from res have cum': "dict_get (snd (accumulate_loop date sc (dc, cum))) g 0 =
            dict_get cum g 0 + (case map_of sc g of Some v \<Rightarrow> v | None \<Rightarrow> 0)" for g
    by blast
  from inv_emit [OF inv D so di win dist daily cum'] res show ?thesis
    by simp
qed

lemma sector_loop_rows:
  fixes rest :: "nat list"
  assumes "sorted (seen @ rest)" and "distinct (seen @ rest)"
    and "loop_inv df (seen @ rest) start final seen dc cum prev"
  shows "\<forall>r \<in> set (sector_loop df start final rest (dc, cum, prev)).
           row_ok df (seen @ rest) start final (sector_loop df start final rest (dc, cum, prev)) r"
  using assms
proof (induction rest arbitrary: seen dc cum prev)
  case Nil
  then show ?case using loop_inv_rows by auto
next
  case (Cons date rest)
  let ?D = "seen @ date # rest"
  have D': "(seen @ [date]) @ rest = ?D" by simp
  note so = Cons.prems(1) and di = Cons.prems(2) and inv = Cons.prems(3)
  have ih: "\<forall>r \<in> set (sector_loop df start final rest (dc', cum', prev')).
           row_ok df ?D start final (sector_loop df start final rest (dc', cum', prev')) r"
    if "loop_inv df ?D start final (seen @ [date]) dc' cum' prev'" for dc' cum' prev'
    using Cons.IH [of "seen @ [date]" dc' cum' prev'] so di that unfolding D' by blast
  show ?case
  proof (cases "date < start")
    case True
    then have eq: "sector_loop df start final (date # rest) (dc, cum, prev) =
                   sector_loop df start final rest (dc, cum, prev)" by simp
    show ?thesis unfolding eq by (rule ih [OF inv_skip [OF inv True]])
  next
    case ge: False
    show ?thesis
    proof (cases "date > final")
      case True
      with ge have eq: "sector_loop df start final (date # rest) (dc, cum, prev) = dc" by simp
      show ?thesis unfolding eq using loop_inv_rows [OF inv] by blast
    next
      case le: False
      show ?thesis
      proof (cases "date = start")
        case True
        note D = refl [of ?D, unfolded True]
        show ?thesis
        proof (cases "valid_rows df date = []")
          case e: True
          from ge le True e
          have eq: "sector_loop df start final (date # rest) (dc, cum, prev) =
                   sector_loop df start final rest (dc, cum, prev)" by simp
          have "loop_inv df ?D start final (seen @ [date]) dc cum prev"
            using inv_start_empty [OF inv [unfolded True] refl so [unfolded True] di [unfolded True]]
              e True by simp
          then show ?thesis unfolding eq by (rule ih)
        next
          case ne: False
          from ge le True ne
          have eq: "sector_loop df start final (date # rest) (dc, cum, prev) =
                   sector_loop df start final rest
                     (dc, reset_loop (unique (map fst (valid_rows df date))) cum, Some date)"
            by (simp add: Let_def)
          have "loop_inv df ?D start final (seen @ [date]) dc
                  (reset_loop (unique (map fst (valid_rows df date))) cum) (Some date)"
            using inv_start_nonempty [OF inv [unfolded True] refl so [unfolded True]
                di [unfolded True]] True by simp
          then show ?thesis unfolding eq by (rule ih)
        qed
      next
        case ns: False
        with ge le have win: "start < date" "date \<le> final" by simp_all
        show ?thesis
        proof (cases "valid_rows df date = []")
          case e: True
          from ge le ns e
          have eq: "sector_loop df start final (date # rest) (dc, cum, prev) =
                   sector_loop df start final rest (dc, cum, Some date)" by simp
          show ?thesis unfolding eq by (rule ih [OF inv_keep [OF inv refl so di win]])
        next
          case ne: False
          show ?thesis
          proof (cases prev)
            case None
            let ?gs = "unique (map fst (valid_rows df date))"
            from ge le ns ne None
            have eq: "sector_loop df start final (date # rest) (dc, cum, prev) =
                   sector_loop df start final rest
                     (fst (first_loop date ?gs (dc, cum)), snd (first_loop date ?gs (dc, cum)),
                      Some date)"
              by (simp add: Let_def split_def)
            show ?thesis unfolding eq
              by (rule ih [OF inv_first [OF inv [unfolded None] refl so di win distinct_unique]])
          next
            case (Some pd)
            show ?thesis
            proof (cases "valid_rows df pd = []")
              case pe: True
              from ge le ns ne Some pe
              have eq: "sector_loop df start final (date # rest) (dc, cum, prev) =
                   sector_loop df start final rest (dc, cum, Some date)" by simp
              show ?thesis unfolding eq by (rule ih [OF inv_keep [OF inv refl so di win]])
            next
              case pne: False
              let ?cdf = "contribution_df (valid_rows df pd) (valid_rows df date)"
              show ?thesis
              proof (cases "?cdf = []")
                case ce: True
                from ge le ns ne Some pne ce
                have eq: "sector_loop df start final (date # rest) (dc, cum, prev) =
                   sector_loop df start final rest (dc, cum, Some date)" by (simp add: Let_def)
                show ?thesis unfolding eq by (rule ih [OF inv_keep [OF inv refl so di win]])
              next
                case cne: False
                let ?sc = "sector_contributions ?cdf"
                from ge le ns ne Some pne cne
                have eq: "sector_loop df start final (date # rest) (dc, cum, prev) =
                   sector_loop df start final rest
                     (fst (accumulate_loop date ?sc (dc, cum)),
                      snd (accumulate_loop date ?sc (dc, cum)), Some date)"
                  by (simp add: Let_def split_def)
                show ?thesis unfolding eq
                  by (rule ih [OF inv_accumulate [OF inv [unfolded Some] refl so di win refl]])
              qed
            qed
          qed
        qed
      qed
    qed
  qed
qed

lemma loop_inv_init: "loop_inv df D start final [] [] [] None"
  by (simp add: loop_inv_def dict_get_def sector_total_def)

lemma dates_of_sorted: "sorted (dates_of df)" "distinct (dates_of df)"
  by (simp_all add: dates_of_def)

lemma sum_filter_insort:
  fixes g :: "'a \<Rightarrow> real"
  shows "sum_list (map g (filter P (insort_key f x xs))) = sum_list (map g (filter P (x # xs)))"
  by (induction xs) auto

lemma sum_filter_sort:
  fixes g :: "'a \<Rightarrow> real"
  shows "sum_list (map g (filter P (sort_key f xs))) = sum_list (map g (filter P xs))"
proof (induction xs)
  case Nil
  then show ?case by simp
next
  case (Cons x xs)
  have "sort_key f (x # xs) = insort_key f x (sort_key f xs)" by (simp add: sort_key_def)
  then show ?case using Cons.IH by (simp add: sum_filter_insort)
qed

lemma running_sum_sort: "running_sum (sort_key f dc) r = running_sum dc r"
  by (simp add: running_sum_def sum_filter_sort)

lemma sector_total_sort: "sector_total (sort_key f dc) g = sector_total dc g"
  by (simp add: sector_total_def sum_filter_sort)

lemma get_daily_sector_contributions_sorted:
  "get_daily_sector_contributions performance_df start final =
     sort_key (\<lambda>r. (c_dt r, c_gics_name r))
       (sector_loop (sorted_frame performance_df) start final
          (dates_of (sorted_frame performance_df)) ([], [], None))"
  by (simp add: get_daily_sector_contributions_def sorted_frame_def Let_def)

lemma result_row_ok:
  assumes "r \<in> set (get_daily_sector_contributions performance_df start final)"
  shows "row_ok (sorted_frame performance_df) (dates_of (sorted_frame performance_df)) start final
           (get_daily_sector_contributions performance_df start final) r"
proof -
  let ?df = "sorted_frame performance_df"
  let ?dc = "sector_loop ?df start final (dates_of ?df) ([], [], None)"
  from sector_loop_rows [of "[]" "dates_of ?df" ?df start final "[]" "[]" None]
  have all: "\<forall>r \<in> set ?dc. row_ok ?df (dates_of ?df) start final ?dc r"
    using dates_of_sorted loop_inv_init by simp
  from assms have "r \<in> set ?dc"
    by (simp add: get_daily_sector_contributions_sorted)
  with all have "row_ok ?df (dates_of ?df) start final ?dc r" by blast
  then show ?thesis
    by (simp add: row_ok_def get_daily_sector_contributions_sorted running_sum_sort)
qed

section \<open>Properties of the solver\<close>

lemma nav_after_injection:
  assumes "t \<noteq> 1"
  shows "nav + additional_amount t nav a = (nav - a) / (1 - t)"
proof -
  from assms have nz: "1 - t \<noteq> 0" by simp
  have "nav + additional_amount t nav a = (nav * (1 - t) + (t * nav - a)) / (1 - t)"
    using nz by (simp add: additional_amount_def add_divide_distrib)
  also have "nav * (1 - t) + (t * nav - a) = nav - a" by (simp add: algebra_simps)
  finally show ?thesis .
qed

lemma amount_after_injection:
  assumes "t \<noteq> 1"
  shows "a + additional_amount t nav a = t * (nav - a) / (1 - t)"
proof -
  from assms have nz: "1 - t \<noteq> 0" by simp
  have "a + additional_amount t nav a = (a * (1 - t) + (t * nav - a)) / (1 - t)"
    using nz by (simp add: additional_amount_def add_divide_distrib)
  also have "a * (1 - t) + (t * nav - a) = t * (nav - a)" by (simp add: algebra_simps)
  finally show ?thesis .
qed

text \<open>
  C1 (as amended).  For a target strictly between 0 and 1, a positive NAV and a
  non-negative drifted weight that differs from the NAV, the share of the
  instrument after injecting \<open>additional_amount\<close> is defined and equals the target.
\<close>

theorem C1_share_after_injection:
  assumes "0 < t" and "t < 1" and "0 < nav" and "0 \<le> a" and "a \<noteq> nav"
  shows "share_after_injection t nav a = Some t"
proof -
  from assms have t1: "t \<noteq> 1" and nz: "1 - t \<noteq> 0" and d: "nav - a \<noteq> 0" by simp_all
  have n: "nav + additional_amount t nav a = (nav - a) / (1 - t)"
    by (rule nav_after_injection [OF t1])
  have m: "a + additional_amount t nav a = t * (nav - a) / (1 - t)"
    by (rule amount_after_injection [OF t1])
  have n0: "nav + additional_amount t nav a \<noteq> 0"
    using n nz d by simp
  have "(a + additional_amount t nav a) / (nav + additional_amount t nav a) = t"
    unfolding n m using nz d by simp
  with n0 show ?thesis
    by (simp add: share_after_injection_def Let_def)
qed

theorem C1_share_after_injection_witness:
  "(0::real) < 1/4 \<and> (1/4::real) < 1 \<and> (0::real) < 1 \<and> (0::real) \<le> 1/10 \<and> (1/10::real) \<noteq> 1
   \<and> share_after_injection (1/4) 1 (1/10) = Some (1/4)"
  using C1_share_after_injection [of "1/4" 1 "1/10"] by simp

text \<open>
  C1 as stated fails when the instrument is the whole NAV: with drifted weight
  and NAV both 0.5 and target 0.6 the injection is -0.5, the new NAV is zero and
  the share has no value.
\<close>

theorem C1_counterexample:
  "(0::real) < 3/5 \<and> (3/5::real) < 1 \<and> (0::real) < 1/2 \<and> (0::real) \<le> 1/2
   \<and> share_after_injection (3/5) (1/2) (1/2) \<noteq> Some (3/5)"
  by (simp add: share_after_injection_def additional_amount_def Let_def)

section \<open>Properties of a non-base date\<close>

text \<open>
  C2 (as amended).  On a non-base date the injection target of every stock that
  enters \<^verbatim>\<open>stocks_with_active_weight\<close> is its drifted previous strategy weight
  plus the override delta resolved for it.  The BM weight of the date does not
  enter the target.
\<close>

theorem C2_target_weight:
  assumes "(s, i) \<in> set (stocks_with_active_weight all_stocks
                           (adjusted_weights all_stocks prev pp dp) act)"
  shows "target_weight i =
           drift (dict_get prev s 0) (price_get pp s) (price_get dp s)
             + current_active_weight act s"
proof -
  from swa_entry [OF assms] have mem: "s \<in> set all_stocks"
    and i: "target_weight i =
              dict_get (adjusted_weights all_stocks prev pp dp) s 0 + current_active_weight act s"
    by simp_all
  from i dict_get_adjusted_weights [OF mem] show ?thesis by simp
qed

theorem C2_target_weight_witness:
  "(''X'', \<lparr>adjusted_weight = 1/5, target_weight = 1/4, active_weight = 1/20\<rparr>)
     \<in> set (stocks_with_active_weight [''X'']
              (adjusted_weights [''X''] [(''X'', 1/5)] [(''X'', Some 100)] [(''X'', Some 100)])
              [(''X'', 1/20)])
   \<and> target_weight \<lparr>adjusted_weight = 1/5, target_weight = 1/4, active_weight = 1/20\<rparr> =
       drift (dict_get [(''X'', 1/5)] ''X'' 0) (price_get [(''X'', Some 100)] ''X'')
         (price_get [(''X'', Some 100)] ''X'')
       + current_active_weight [(''X'', 1/20)] ''X''"
proof -
  have h: "(''X'', \<lparr>adjusted_weight = 1/5, target_weight = 1/4, active_weight = 1/20\<rparr>)
     \<in> set (stocks_with_active_weight [''X'']
              (adjusted_weights [''X''] [(''X'', 1/5)] [(''X'', Some 100)] [(''X'', Some 100)])
              [(''X'', 1/20)])"
    by (simp add: adjusted_weights_def drift_def dict_get_def price_get_def
          current_active_weight_def Let_def)
  from C2_target_weight [OF h] h show ?thesis by blast
qed

text \<open>
  C2 as stated fails: with previous strategy weight 0.2, BM weight 0.1 today,
  unchanged price and delta 0.05 the target is 0.25, not 0.1 + 0.05.
\<close>

theorem C2_counterexample:
  "stocks_with_active_weight
     (non_base_all_stocks remdups [(''X'', 1/5)] [(''X'', 1/10)] [(''X'', 1/20)])
     (adjusted_weights
        (non_base_all_stocks remdups [(''X'', 1/5)] [(''X'', 1/10)] [(''X'', 1/20)])
        [(''X'', 1/5)] [(''X'', Some 100)] [(''X'', Some 100)])
     [(''X'', 1/20)]
   = [(''X'', \<lparr>adjusted_weight = 1/5, target_weight = 1/4, active_weight = 1/20\<rparr>)]
   \<and> (1/4 :: real) \<noteq> dict_get [(''X'', 1/10)] ''X'' 0 + dict_get [(''X'', 1/20)] ''X'' 0"
  by (simp add: non_base_all_stocks_def keys_def adjusted_weights_def drift_def dict_get_def
        price_get_def current_active_weight_def Let_def)

text \<open>
  C6 (as amended).  On a non-base date a stock with a positive price on the
  previous and on the current day gets its previous strategy weight times
  \<open>price today / price yesterday\<close>; a stock whose previous price is absent,
  \<^verbatim>\<open>None\<close>, zero or negative, or whose current price is absent, \<^verbatim>\<open>None\<close>
  or zero, keeps its previous strategy weight.
\<close>

theorem C6_organic_drift:
  assumes "s \<in> set all_stocks"
  shows "(\<forall>p c. price_get pp s = Some p \<and> price_get dp s = Some c \<and> 0 < p \<and> 0 < c \<longrightarrow>
            dict_get (adjusted_weights all_stocks prev pp dp) s 0 = dict_get prev s 0 * (c / p))
       \<and> ((price_get pp s = None \<or> (\<exists>p. price_get pp s = Some p \<and> p \<le> 0)
            \<or> price_get dp s = None \<or> price_get dp s = Some 0) \<longrightarrow>
            dict_get (adjusted_weights all_stocks prev pp dp) s 0 = dict_get prev s 0)"
proof -
  have a: "dict_get (adjusted_weights all_stocks prev pp dp) s 0 =
             drift (dict_get prev s 0) (price_get pp s) (price_get dp s)"
    by (rule dict_get_adjusted_weights [OF assms])
  show ?thesis
    unfolding a
    by (cases "price_get pp s"; cases "price_get dp s") (auto simp: drift_def)
qed

theorem C6_organic_drift_witness:
  "''X'' \<in> set [''X'', ''Z'']
   \<and> dict_get (adjusted_weights [''X'', ''Z''] [(''X'', 11/100), (''Z'', 1/2)]
        [(''X'', Some 100), (''Z'', Some 10)] [(''X'', Some 110)]) ''X'' 0 = 11/100 * (110 / 100)
   \<and> dict_get (adjusted_weights [''X'', ''Z''] [(''X'', 11/100), (''Z'', 1/2)]
        [(''X'', Some 100), (''Z'', Some 10)] [(''X'', Some 110)]) ''Z'' 0 = 1/2"
proof -
  have x: "''X'' \<in> set [''X'', ''Z'']" and z: "''Z'' \<in> set [''X'', ''Z'']" by simp_all
  have px: "price_get [(''X'', Some 100), (''Z'', Some 10)] ''X'' = Some 100"
    and dx: "price_get [(''X'', Some (110::real))] ''X'' = Some 110"
    and dz: "price_get [(''X'', Some (110::real))] ''Z'' = None"
    and wx: "dict_get [(''X'', 11/100), (''Z'', 1/2)] ''X'' (0::real) = 11/100"
    and wz: "dict_get [(''X'', 11/100), (''Z'', 1/2)] ''Z'' (0::real) = 1/2"
    by (simp_all add: price_get_def dict_get_def)
  from C6_organic_drift [OF x, of "[(''X'', Some 100), (''Z'', Some 10)]" "[(''X'', Some 110)]"
         "[(''X'', 11/100), (''Z'', 1/2)]"] px dx wx
  have 1: "dict_get (adjusted_weights [''X'', ''Z''] [(''X'', 11/100), (''Z'', 1/2)]
        [(''X'', Some 100), (''Z'', Some 10)] [(''X'', Some 110)]) ''X'' 0 = 11/100 * (110 / 100)"
    by simp
  from C6_organic_drift [OF z, of "[(''X'', Some 100), (''Z'', Some 10)]" "[(''X'', Some 110)]"
         "[(''X'', 11/100), (''Z'', 1/2)]"] dz wz
  have 2: "dict_get (adjusted_weights [''X'', ''Z''] [(''X'', 11/100), (''Z'', 1/2)]
        [(''X'', Some 100), (''Z'', Some 10)] [(''X'', Some 110)]) ''Z'' 0 = 1/2"
    by simp
  from x 1 2 show ?thesis by blast
qed

text \<open>
  C6 as stated fails for a negative current price, which is not a valid positive
  price and still drifts the weight: previous price 1, current price -1 and
  weight 0.5 give -0.5.
\<close>

theorem C6_counterexample:
  "price_get [(''Z'', Some (- 1))] ''Z'' = Some (- 1) \<and> \<not> (0 < (- 1 :: real))
   \<and> dict_get [(''Z'', 1/2)] ''Z'' 0 = (1/2 :: real)
   \<and> dict_get (adjusted_weights [''Z''] [(''Z'', 1/2)] [(''Z'', Some 1)] [(''Z'', Some (- 1))])
        ''Z'' 0 = - (1/2)"
  by (simp add: adjusted_weights_def drift_def dict_get_def price_get_def)

text \<open>
  C7 (as amended).  On a non-base date where some stock has a positive resolved
  delta, every stock without one gets its drifted weight divided by the final
  NAV when that NAV is positive (its drifted weight unchanged otherwise), and
  every stock with one gets its target weight when the target is below 1 (its
  drifted weight unchanged otherwise).  On a date where no stock has a positive
  resolved delta the emitted weights are the drifted weights.
\<close>

theorem C7_emitted_weights:
  assumes "distinct all_stocks"
  shows "(stocks_with_active_weight all_stocks adjusted act \<noteq> [] \<longrightarrow>
            (\<forall>s \<in> set all_stocks.
               map_of (stocks_with_active_weight all_stocks adjusted act) s = None \<longrightarrow>
               dict_get (apply_targeting all_stocks adjusted act) s 0 =
                 (if nav_final (stocks_with_active_weight all_stocks adjusted act) adjusted > 0
                  then dict_get adjusted s 0
                         / nav_final (stocks_with_active_weight all_stocks adjusted act) adjusted
                  else dict_get adjusted s 0))
          \<and> (\<forall>(s, i) \<in> set (stocks_with_active_weight all_stocks adjusted act).
               dict_get (apply_targeting all_stocks adjusted act) s 0 =
                 (if target_weight i < 1 then target_weight i else dict_get adjusted s 0)))
       \<and> (stocks_with_active_weight all_stocks adjusted act = [] \<longrightarrow>
            apply_targeting all_stocks adjusted act = adjusted)"
proof (intro conjI impI ballI)
  fix s
  assume "stocks_with_active_weight all_stocks adjusted act \<noteq> []" "s \<in> set all_stocks"
    "map_of (stocks_with_active_weight all_stocks adjusted act) s = None"
  then show "dict_get (apply_targeting all_stocks adjusted act) s 0 =
                 (if nav_final (stocks_with_active_weight all_stocks adjusted act) adjusted > 0
                  then dict_get adjusted s 0
                         / nav_final (stocks_with_active_weight all_stocks adjusted act) adjusted
                  else dict_get adjusted s 0)"
    by (rule weight_not_overridden)
next
  fix p
  assume p: "p \<in> set (stocks_with_active_weight all_stocks adjusted act)"
  obtain s i where si: "p = (s, i)" by (cases p)
  from weight_overridden [OF assms p [unfolded si]]
  show "case p of (s, i) \<Rightarrow> dict_get (apply_targeting all_stocks adjusted act) s 0 =
                 (if target_weight i < 1 then target_weight i else dict_get adjusted s 0)"
    by (simp add: si)
next
  assume "stocks_with_active_weight all_stocks adjusted act = []"
  then show "apply_targeting all_stocks adjusted act = adjusted"
    by (rule apply_targeting_empty)
qed

theorem C7_emitted_weights_witness:
  "distinct [''X'', ''Y'', ''Z'']
   \<and> stocks_with_active_weight [''X'', ''Y'', ''Z''] [(''X'', 1/5), (''Y'', 9/10), (''Z'', 2/5)]
        [(''X'', 1/10), (''Y'', 1/5)] \<noteq> []
   \<and> ''Z'' \<in> set [''X'', ''Y'', ''Z'']
   \<and> map_of (stocks_with_active_weight [''X'', ''Y'', ''Z'']
        [(''X'', 1/5), (''Y'', 9/10), (''Z'', 2/5)] [(''X'', 1/10), (''Y'', 1/5)]) ''Z'' = None
   \<and> dict_get (apply_targeting [''X'', ''Y'', ''Z''] [(''X'', 1/5), (''Y'', 9/10), (''Z'', 2/5)]
        [(''X'', 1/10), (''Y'', 1/5)]) ''Z'' 0 = (2/5) / (13/7)
   \<and> dict_get (apply_targeting [''X'', ''Y'', ''Z''] [(''X'', 1/5), (''Y'', 9/10), (''Z'', 2/5)]
        [(''X'', 1/10), (''Y'', 1/5)]) ''X'' 0 = 3/10
   \<and> stocks_with_active_weight [''X'', ''Y'', ''Z''] [(''X'', 1/5), (''Y'', 9/10), (''Z'', 2/5)] [] = []
   \<and> apply_targeting [''X'', ''Y'', ''Z''] [(''X'', 1/5), (''Y'', 9/10), (''Z'', 2/5)] []
       = [(''X'', 1/5), (''Y'', 9/10), (''Z'', 2/5)]"
proof -
  let ?all = "[''X'', ''Y'', ''Z'']"
  let ?adj = "[(''X'', 1/5), (''Y'', 9/10), (''Z'', 2/5)] :: real dict"
  let ?act = "[(''X'', 1/10), (''Y'', 1/5)] :: real dict"
  have d: "distinct ?all" by simp
  have swa: "stocks_with_active_weight ?all ?adj ?act =
      [(''X'', \<lparr>adjusted_weight = 1/5, target_weight = 3/10, active_weight = 1/10\<rparr>),
       (''Y'', \<lparr>adjusted_weight = 9/10, target_weight = 11/10, active_weight = 1/5\<rparr>)]"
    by code_simp
  have nav: "nav_final
      [(''X'', \<lparr>adjusted_weight = 1/5, target_weight = 3/10, active_weight = 1/10\<rparr>),
       (''Y'', \<lparr>adjusted_weight = 9/10, target_weight = 11/10, active_weight = 1/5\<rparr>)] ?adj = 13/7"
    by code_simp
  have e: "stocks_with_active_weight ?all ?adj [] = []"
    by code_simp
  note th = C7_emitted_weights [OF d, of ?adj ?act, unfolded swa nav]
  from th have 1: "dict_get (apply_targeting ?all ?adj ?act) ''Z'' 0 = (2/5) / (13/7)"
    by (simp add: dict_get_def)
  from th have 2: "dict_get (apply_targeting ?all ?adj ?act) ''X'' 0 = 3/10"
    by simp
  from C7_emitted_weights [OF d, of ?adj "[]"] e
  have 3: "apply_targeting ?all ?adj [] = ?adj" by simp
  from d swa e 1 2 3 show ?thesis by simp
qed

text \<open>
  C7 as stated fails on a date with an applied override on X and an override on
  Y whose target is 1.1: the emitted weight of Y is its drifted weight 0.9, not
  its target.
\<close>

theorem C7_counterexample:
  "map (\<lambda>(s, i). (s, target_weight i))
     (stocks_with_active_weight
        (non_base_all_stocks remdups [(''X'', 1/5), (''Y'', 9/10), (''Z'', 2/5)]
           [(''X'', 1/5), (''Y'', 2/5), (''Z'', 2/5)] [(''X'', 1/10), (''Y'', 1/5)])
        (adjusted_weights
           (non_base_all_stocks remdups [(''X'', 1/5), (''Y'', 9/10), (''Z'', 2/5)]
              [(''X'', 1/5), (''Y'', 2/5), (''Z'', 2/5)] [(''X'', 1/10), (''Y'', 1/5)])
           [(''X'', 1/5), (''Y'', 9/10), (''Z'', 2/5)]
           [(''X'', Some 100), (''Y'', Some 100), (''Z'', Some 100)]
           [(''X'', Some 100), (''Y'', Some 100), (''Z'', Some 100)])
        [(''X'', 1/10), (''Y'', 1/5)])
     = [(''X'', 3/10), (''Y'', 11/10)]
   \<and> dict_get (non_base_strategy_weights remdups [(''X'', 1/5), (''Y'', 9/10), (''Z'', 2/5)]
        [(''X'', Some 100), (''Y'', Some 100), (''Z'', Some 100)]
        [(''X'', 1/5), (''Y'', 2/5), (''Z'', 2/5)] [(''X'', 1/10), (''Y'', 1/5)]
        [(''X'', Some 100), (''Y'', Some 100), (''Z'', Some 100)]) ''X'' 0 = 3/10
   \<and> dict_get (non_base_strategy_weights remdups [(''X'', 1/5), (''Y'', 9/10), (''Z'', 2/5)]
        [(''X'', Some 100), (''Y'', Some 100), (''Z'', Some 100)]
        [(''X'', 1/5), (''Y'', 2/5), (''Z'', 2/5)] [(''X'', 1/10), (''Y'', 1/5)]
        [(''X'', Some 100), (''Y'', Some 100), (''Z'', Some 100)]) ''Y'' 0 = 9/10"
  by code_simp

text \<open>
  C4 (as amended).  The injections of a date are applied one after the other in
  the order in which the stocks with a positive resolved delta come out of the
  iteration over the set \<^verbatim>\<open>all_stocks\<close>, each one solved against the NAV left
  by the ones before it.  That order is not sorted by instrument id.
\<close>

theorem C4_injection_order:
  assumes "distinct all_stocks"
  shows "keys (stocks_with_active_weight all_stocks adjusted act) =
           filter (\<lambda>s. current_active_weight act s > 0) all_stocks
       \<and> nav_final (stocks_with_active_weight all_stocks adjusted act) adjusted =
           foldl (inject_step adjusted) (nav_old adjusted)
             (stocks_with_active_weight all_stocks adjusted act)"
  using nav_final_foldl [OF swa_distinct [OF assms]] by (simp add: keys_def swa_keys)

theorem C4_injection_order_witness:
  "distinct [''Y'', ''X'', ''Z'']
   \<and> keys (stocks_with_active_weight [''Y'', ''X'', ''Z'']
        [(''Y'', 3/10), (''X'', 1/5), (''Z'', 1/2)] [(''X'', 1/10), (''Y'', 1/10)]) = [''Y'', ''X'']
   \<and> nav_final (stocks_with_active_weight [''Y'', ''X'', ''Z'']
        [(''Y'', 3/10), (''X'', 1/5), (''Z'', 1/2)] [(''X'', 1/10), (''Y'', 1/10)])
        [(''Y'', 3/10), (''X'', 1/5), (''Z'', 1/2)] = 29/21"
proof -
  let ?all = "[''Y'', ''X'', ''Z'']"
  let ?adj = "[(''Y'', 3/10), (''X'', 1/5), (''Z'', 1/2)] :: real dict"
  let ?act = "[(''X'', 1/10), (''Y'', 1/10)] :: real dict"
  have d: "distinct ?all" by simp
  have f: "filter (\<lambda>s. current_active_weight ?act s > 0) ?all = [''Y'', ''X'']"
    by code_simp
  have n: "foldl (inject_step ?adj) (nav_old ?adj) (stocks_with_active_weight ?all ?adj ?act) = 29/21"
    by code_simp
  from C4_injection_order [OF d, of ?adj ?act] f n d show ?thesis by simp
qed

text \<open>
  C4 as stated fails: two iteration orders of the same set of stocks, both
  possible for a Python set, inject X before Y and Y before X and leave the
  non-overridden stock Z with weight 21/59 and 21/58.
\<close>

theorem C4_counterexample:
  "set_iteration remdups \<and> set_iteration (\<lambda>xs. rev (remdups xs))
   \<and> dict_get (non_base_strategy_weights remdups [(''X'', 1/5), (''Y'', 3/10), (''Z'', 1/2)]
        [(''X'', Some 100), (''Y'', Some 100), (''Z'', Some 100)]
        [(''X'', 1/5), (''Y'', 3/10), (''Z'', 1/2)] [(''X'', 1/10), (''Y'', 1/10)]
        [(''X'', Some 100), (''Y'', Some 100), (''Z'', Some 100)]) ''Z'' 0 = 21/59
   \<and> dict_get (non_base_strategy_weights (\<lambda>xs. rev (remdups xs))
        [(''X'', 1/5), (''Y'', 3/10), (''Z'', 1/2)]
        [(''X'', Some 100), (''Y'', Some 100), (''Z'', Some 100)]
        [(''X'', 1/5), (''Y'', 3/10), (''Z'', 1/2)] [(''X'', 1/10), (''Y'', 1/10)]
        [(''X'', Some 100), (''Y'', Some 100), (''Z'', Some 100)]) ''Z'' 0 = 21/58"
proof -
  have 1: "set_iteration remdups" and 2: "set_iteration (\<lambda>xs. rev (remdups xs))"
    by (simp_all add: set_iteration_def)
  have 3: "dict_get (non_base_strategy_weights remdups [(''X'', 1/5), (''Y'', 3/10), (''Z'', 1/2)]
        [(''X'', Some 100), (''Y'', Some 100), (''Z'', Some 100)]
        [(''X'', 1/5), (''Y'', 3/10), (''Z'', 1/2)] [(''X'', 1/10), (''Y'', 1/10)]
        [(''X'', Some 100), (''Y'', Some 100), (''Z'', Some 100)]) ''Z'' 0 = 21/59"
    by code_simp
  have 4: "dict_get (non_base_strategy_weights (\<lambda>xs. rev (remdups xs))
        [(''X'', 1/5), (''Y'', 3/10), (''Z'', 1/2)]
        [(''X'', Some 100), (''Y'', Some 100), (''Z'', Some 100)]
        [(''X'', 1/5), (''Y'', 3/10), (''Z'', 1/2)] [(''X'', 1/10), (''Y'', 1/10)]
        [(''X'', Some 100), (''Y'', Some 100), (''Z'', Some 100)]) ''Z'' 0 = 21/58"
    by code_simp
  from 1 2 3 4 show ?thesis by blast
qed

text \<open>
  C3 (as amended).  When the target weight of an override is 1 or more on a
  non-base date, that stock keeps its drifted weight and adds nothing to the
  NAV; the final NAV is the one the other injections give, the other
  overridden stocks get their targets and the remaining stocks are diluted by
  that final NAV.
\<close>

theorem C3_rejected_override:
  assumes d: "distinct all_stocks"
    and mem: "(s, i) \<in> set (stocks_with_active_weight all_stocks adjusted act)"
    and rej: "\<not> 1 - target_weight i > 0"
  shows "dict_get (apply_targeting all_stocks adjusted act) s 0 = dict_get adjusted s 0
       \<and> nav_final (stocks_with_active_weight all_stocks adjusted act) adjusted =
           foldl (inject_step adjusted) (nav_old adjusted)
             (filter (\<lambda>(k, j). 1 - target_weight j > 0)
                (stocks_with_active_weight all_stocks adjusted act))
       \<and> (\<forall>(k, j) \<in> set (stocks_with_active_weight all_stocks adjusted act).
             1 - target_weight j > 0 \<longrightarrow>
             dict_get (apply_targeting all_stocks adjusted act) k 0 = target_weight j)
       \<and> (\<forall>k \<in> set all_stocks.
             map_of (stocks_with_active_weight all_stocks adjusted act) k = None \<longrightarrow>
             dict_get (apply_targeting all_stocks adjusted act) k 0 =
               (if nav_final (stocks_with_active_weight all_stocks adjusted act) adjusted > 0
                then dict_get adjusted k 0
                       / nav_final (stocks_with_active_weight all_stocks adjusted act) adjusted
                else dict_get adjusted k 0))"
proof -
  let ?swa = "stocks_with_active_weight all_stocks adjusted act"
  from mem have ne: "?swa \<noteq> []" by auto
  have 1: "dict_get (apply_targeting all_stocks adjusted act) s 0 = dict_get adjusted s 0"
    using weight_overridden [OF d mem] rej by simp
  have "foldl (inject_step adjusted) (nav_old adjusted)
          (filter (\<lambda>(k, j). 1 - target_weight j > 0) ?swa) =
        foldl (inject_step adjusted) (nav_old adjusted) ?swa"
    by (rule foldl_filter_skip) (auto simp: inject_step_def)
  then have 2: "nav_final ?swa adjusted =
           foldl (inject_step adjusted) (nav_old adjusted)
             (filter (\<lambda>(k, j). 1 - target_weight j > 0) ?swa)"
    using nav_final_foldl [OF swa_distinct [OF d]] by simp
  have 3: "\<forall>(k, j) \<in> set ?swa. 1 - target_weight j > 0 \<longrightarrow>
             dict_get (apply_targeting all_stocks adjusted act) k 0 = target_weight j"
    using weight_overridden [OF d] by auto
  have 4: "\<forall>k \<in> set all_stocks. map_of ?swa k = None \<longrightarrow>
             dict_get (apply_targeting all_stocks adjusted act) k 0 =
               (if nav_final ?swa adjusted > 0
                then dict_get adjusted k 0 / nav_final ?swa adjusted
                else dict_get adjusted k 0)"
    using weight_not_overridden [OF ne] by blast
  from 1 2 3 4 show ?thesis by blast
qed

theorem C3_rejected_override_witness:
  "distinct [''X'', ''Y'', ''Z'']
   \<and> (''Y'', \<lparr>adjusted_weight = 9/10, target_weight = 11/10, active_weight = 1/5\<rparr>)
       \<in> set (stocks_with_active_weight [''X'', ''Y'', ''Z'']
                [(''X'', 1/5), (''Y'', 9/10), (''Z'', 2/5)] [(''X'', 1/10), (''Y'', 1/5)])
   \<and> \<not> 1 - target_weight \<lparr>adjusted_weight = 9/10, target_weight = 11/10, active_weight = 1/5\<rparr> > 0
   \<and> dict_get (apply_targeting [''X'', ''Y'', ''Z''] [(''X'', 1/5), (''Y'', 9/10), (''Z'', 2/5)]
        [(''X'', 1/10), (''Y'', 1/5)]) ''Y'' 0 = 9/10
   \<and> dict_get (apply_targeting [''X'', ''Y'', ''Z''] [(''X'', 1/5), (''Y'', 9/10), (''Z'', 2/5)]
        [(''X'', 1/10), (''Y'', 1/5)]) ''X'' 0 = 3/10
   \<and> dict_get (apply_targeting [''X'', ''Y'', ''Z''] [(''X'', 1/5), (''Y'', 9/10), (''Z'', 2/5)]
        [(''X'', 1/10), (''Y'', 1/5)]) ''Z'' 0 = (2/5) / (13/7)"
proof -
  let ?all = "[''X'', ''Y'', ''Z'']"
  let ?adj = "[(''X'', 1/5), (''Y'', 9/10), (''Z'', 2/5)] :: real dict"
  let ?act = "[(''X'', 1/10), (''Y'', 1/5)] :: real dict"
  let ?i = "\<lparr>adjusted_weight = 9/10, target_weight = 11/10, active_weight = 1/5\<rparr>"
  have d: "distinct ?all" by simp
  have swa: "stocks_with_active_weight ?all ?adj ?act =
      [(''X'', \<lparr>adjusted_weight = 1/5, target_weight = 3/10, active_weight = 1/10\<rparr>),
       (''Y'', ?i)]"
    by code_simp
  have mem: "(''Y'', ?i) \<in> set (stocks_with_active_weight ?all ?adj ?act)"
    unfolding swa by simp
  have rej: "\<not> 1 - target_weight ?i > 0" by simp
  have nav: "foldl (inject_step ?adj) (nav_old ?adj)
      (filter (\<lambda>(k, j). 1 - target_weight j > 0) (stocks_with_active_weight ?all ?adj ?act)) = 13/7"
    by code_simp
  have g: "dict_get ?adj ''Z'' 0 = 2/5" "dict_get ?adj ''Y'' 0 = 9/10"
    by (simp_all add: dict_get_def)
  from C3_rejected_override [OF d mem rej] g
  have 1: "dict_get (apply_targeting ?all ?adj ?act) ''Y'' 0 = 9/10" by simp
  from C3_rejected_override [OF d mem rej] nav
  have n: "nav_final (stocks_with_active_weight ?all ?adj ?act) ?adj = 13/7" by simp
  from C3_rejected_override [OF d mem rej] swa
  have 2: "dict_get (apply_targeting ?all ?adj ?act) ''X'' 0 = 3/10" by simp
  from C3_rejected_override [OF d mem rej] swa g
  have 3: "dict_get (apply_targeting ?all ?adj ?act) ''Z'' 0 = (2/5) / (13/7)"
    unfolding n by simp
  from d mem rej 1 2 3 show ?thesis by blast
qed

text \<open>
  C3 as stated fails in its last part.  The rows and the summary entry of a date
  are the same for a state from which the override on X is rejected (drifted
  weight 0.8, delta 0.3) and for a state from which it is applied (drifted
  weight 0.5, delta 0.3): no field of the output tells the two apart.
\<close>

theorem C3_counterexample:
  "rejects_override remdups
     \<lparr>prev_bm_weights = [(''X'', 1/2), (''Y'', 1/2)],
        prev_strategy_weights = [(''X'', 4/5), (''Y'', 1/5)],
        prev_prices = [(''X'', Some 100), (''Y'', Some 50)],
        prev_bm_nav = Some 1, prev_mp_nav = Some 1\<rparr>
     \<lparr>d_date = 2, d_bm_weights = [(''X'', 1/2), (''Y'', 1/2)],
        d_active_weights = [(''X'', 3/10)],
        d_stock_price = [(''X'', Some 100, None), (''Y'', Some 50, None)],
        d_prev_date_bm = Some [(''X'', 1/2), (''Y'', 1/2)]\<rparr>
   \<and> \<not> rejects_override remdups
     \<lparr>prev_bm_weights = [(''X'', 1/2), (''Y'', 1/2)],
        prev_strategy_weights = [(''X'', 1/2), (''Y'', 1/2)],
        prev_prices = [(''X'', Some 100), (''Y'', Some 50)],
        prev_bm_nav = Some 1, prev_mp_nav = Some 1\<rparr>
     \<lparr>d_date = 2, d_bm_weights = [(''X'', 1/2), (''Y'', 1/2)],
        d_active_weights = [(''X'', 3/10)],
        d_stock_price = [(''X'', Some 100, None), (''Y'', Some 50, None)],
        d_prev_date_bm = Some [(''X'', 1/2), (''Y'', 1/2)]\<rparr>
   \<and> snd (process_date remdups False 1 [(''X'', Some 100), (''Y'', Some 50)]
     \<lparr>prev_bm_weights = [(''X'', 1/2), (''Y'', 1/2)],
        prev_strategy_weights = [(''X'', 4/5), (''Y'', 1/5)],
        prev_prices = [(''X'', Some 100), (''Y'', Some 50)],
        prev_bm_nav = Some 1, prev_mp_nav = Some 1\<rparr>
     \<lparr>d_date = 2, d_bm_weights = [(''X'', 1/2), (''Y'', 1/2)],
        d_active_weights = [(''X'', 3/10)],
        d_stock_price = [(''X'', Some 100, None), (''Y'', Some 50, None)],
        d_prev_date_bm = Some [(''X'', 1/2), (''Y'', 1/2)]\<rparr>)
     = snd (process_date remdups False 1 [(''X'', Some 100), (''Y'', Some 50)]
     \<lparr>prev_bm_weights = [(''X'', 1/2), (''Y'', 1/2)],
        prev_strategy_weights = [(''X'', 1/2), (''Y'', 1/2)],
        prev_prices = [(''X'', Some 100), (''Y'', Some 50)],
        prev_bm_nav = Some 1, prev_mp_nav = Some 1\<rparr>
     \<lparr>d_date = 2, d_bm_weights = [(''X'', 1/2), (''Y'', 1/2)],
        d_active_weights = [(''X'', 3/10)],
        d_stock_price = [(''X'', Some 100, None), (''Y'', Some 50, None)],
        d_prev_date_bm = Some [(''X'', 1/2), (''Y'', 1/2)]\<rparr>)"
  by code_simp

section \<open>Properties of the base date\<close>

lemma base_navs_values:
  "fst (base_navs bm act) = (if sum_values bm > 0 then sum_values bm else 1)"
  "snd (base_navs bm act) = fst (base_navs bm act) * (1 + sum_values act)"
  by (simp_all add: base_navs_def Let_def algebra_simps)

text \<open>
  At the base date the strategy weight of a name is its BM weight plus the delta
  stored under exactly that name, in the state and in every output row; the BM
  NAV of the summary entry is the sum of the BM weights (1 when that sum is not
  positive) and the strategy NAV is the BM NAV times one plus the sum of the
  deltas.
\<close>

lemma base_date_exact_names:
  assumes it: "set_iteration iter"
    and base: "d_date inp = base_actual_date"
    and ne: "keys (d_bm_weights inp) @ keys (d_active_weights inp) \<noteq> []"
  shows "(\<forall>s. dict_get (prev_strategy_weights
                  (fst (process_date iter lpc base_actual_date base_prices st inp))) s 0 =
              dict_get (d_bm_weights inp) s 0 + dict_get (d_active_weights inp) s 0)
       \<and> (\<forall>r \<in> set (fst (snd (process_date iter lpc base_actual_date base_prices st inp))).
              r_strategy_weight r =
                r_bm_weight r + dict_get (d_active_weights inp) (r_stock_name r) 0)
       \<and> (\<exists>entry. snd (snd (process_date iter lpc base_actual_date base_prices st inp)) = Some entry
              \<and> s_BM_NAV entry =
                  (if sum_values (d_bm_weights inp) > 0 then sum_values (d_bm_weights inp) else 1)
              \<and> s_MP_NAV entry = s_BM_NAV entry * (1 + sum_values (d_active_weights inp)))"
proof -
  let ?bm = "d_bm_weights inp" and ?act = "d_active_weights inp"
  have n1: "iter (keys ?bm @ keys ?act) \<noteq> []" by (rule iter_nonempty [OF it ne])
  have w: "dict_get (base_strategy_weights iter ?bm ?act) s 0 = dict_get ?bm s 0 + dict_get ?act s 0"
    for s by (rule base_strategy_weight [OF it])
  have 1: "prev_strategy_weights (fst (process_date iter lpc base_actual_date base_prices st inp))
             = base_strategy_weights iter ?bm ?act"
    using n1 base by (simp add: process_date_def Let_def)
  have 2: "\<forall>r \<in> set (fst (snd (process_date iter lpc base_actual_date base_prices st inp))).
              r_strategy_weight r = r_bm_weight r + dict_get ?act (r_stock_name r) 0"
    using n1 base by (auto simp: process_date_def Let_def make_row_fields w)
  have 3: "\<exists>entry. snd (snd (process_date iter lpc base_actual_date base_prices st inp)) = Some entry
              \<and> s_BM_NAV entry = (if sum_values ?bm > 0 then sum_values ?bm else 1)
              \<and> s_MP_NAV entry = s_BM_NAV entry * (1 + sum_values ?act)"
    using n1 base by (simp add: process_date_def Let_def base_navs_values)
  from 1 2 3 w show ?thesis by simp
qed

text \<open>
  The scenario with the base-date weights X 0.10 and Y 0.90 and a delta of 0.01
  stored under the name X: the strategy weight of X is 0.11, the BM NAV is 1 and
  the strategy NAV 1.01.
\<close>

lemma base_date_scenario:
  "dict_get (prev_strategy_weights (fst (process_date remdups False 1
         [(''X'', Some 100), (''Y'', Some 50)]
         \<lparr>prev_bm_weights = [], prev_strategy_weights = [], prev_prices = [],
            prev_bm_nav = None, prev_mp_nav = None\<rparr>
         \<lparr>d_date = 1, d_bm_weights = [(''X'', 1/10), (''Y'', 9/10)],
            d_active_weights = [(''X'', 1/100)],
            d_stock_price = [(''X'', Some 100, None), (''Y'', Some 50, None)],
            d_prev_date_bm = None\<rparr>))) ''X'' 0 = 11/100
   \<and> map_option (\<lambda>e. (s_BM_NAV e, s_MP_NAV e)) (snd (snd (process_date remdups False 1
         [(''X'', Some 100), (''Y'', Some 50)]
         \<lparr>prev_bm_weights = [], prev_strategy_weights = [], prev_prices = [],
            prev_bm_nav = None, prev_mp_nav = None\<rparr>
         \<lparr>d_date = 1, d_bm_weights = [(''X'', 1/10), (''Y'', 9/10)],
            d_active_weights = [(''X'', 1/100)],
            d_stock_price = [(''X'', Some 100, None), (''Y'', Some 50, None)],
            d_prev_date_bm = None\<rparr>))) = Some (1, 101/100)"
  by code_simp

text \<open>
  C5.  The claim fails on the code when the override names the instrument in
  another form than the holdings do.  The loop of the base date (lines
  3315-3319) reads the delta with the exact name only, where the engine of the
  other dates (lines 3363-3377) and the output row of the base date itself
  (lines 3456-3479, amount at line 3510) reconcile the names.  With the
  base-date weights META US 0.5 and Y 0.5 and a delta of 0.25 stored under the
  name META: the strategy weight of META US stays 0.5 and not 0.75, the delta
  becomes the weight of a separate name META, and the row of META US reports the
  delta 0.25 and the strategy amount 0.75 beside the strategy weight 0.5; the BM
  NAV is 1 and the strategy NAV 1.25.  The matching of the other dates resolves
  the delta 0.25 for META US.
\<close>

theorem C5_base_date_name_not_reconciled:
  "prev_strategy_weights (fst (process_date remdups False 1
         [(''META US'', Some 100), (''Y'', Some 50)]
         \<lparr>prev_bm_weights = [], prev_strategy_weights = [], prev_prices = [],
            prev_bm_nav = None, prev_mp_nav = None\<rparr>
         \<lparr>d_date = 1, d_bm_weights = [(''META US'', 1/2), (''Y'', 1/2)],
            d_active_weights = [(''META'', 1/4)],
            d_stock_price = [(''META US'', Some 100, None), (''Y'', Some 50, None)],
            d_prev_date_bm = None\<rparr>))
     = [(''META US'', 1/2), (''Y'', 1/2), (''META'', 1/4)]
   \<and> map (\<lambda>r. (r_stock_name r, r_bm_weight r, r_active_weight r, r_strategy_weight r, r_mp_amount r))
        (fst (snd (process_date remdups False 1
         [(''META US'', Some 100), (''Y'', Some 50)]
         \<lparr>prev_bm_weights = [], prev_strategy_weights = [], prev_prices = [],
            prev_bm_nav = None, prev_mp_nav = None\<rparr>
         \<lparr>d_date = 1, d_bm_weights = [(''META US'', 1/2), (''Y'', 1/2)],
            d_active_weights = [(''META'', 1/4)],
            d_stock_price = [(''META US'', Some 100, None), (''Y'', Some 50, None)],
            d_prev_date_bm = None\<rparr>)))
     = [(''META US'', 1/2, 1/4, 1/2, 3/4), (''Y'', 1/2, 0, 1/2, 1/2), (''META'', 0, 1/4, 1/4, 1/4),
        (''META US'', 1/2, 1/4, 1/2, 3/4), (''Y'', 1/2, 0, 1/2, 1/2), (''META'', 0, 1/4, 1/4, 1/4)]
   \<and> map_option (\<lambda>e. (s_BM_NAV e, s_MP_NAV e)) (snd (snd (process_date remdups False 1
         [(''META US'', Some 100), (''Y'', Some 50)]
         \<lparr>prev_bm_weights = [], prev_strategy_weights = [], prev_prices = [],
            prev_bm_nav = None, prev_mp_nav = None\<rparr>
         \<lparr>d_date = 1, d_bm_weights = [(''META US'', 1/2), (''Y'', 1/2)],
            d_active_weights = [(''META'', 1/4)],
            d_stock_price = [(''META US'', Some 100, None), (''Y'', Some 50, None)],
            d_prev_date_bm = None\<rparr>))) = Some (1, 5/4)
   \<and> current_active_weight [(''META'', 1/4)] ''META US'' = 1/4"
proof -
  let ?pd = "process_date remdups False 1
         [(''META US'', Some 100), (''Y'', Some 50)]
         \<lparr>prev_bm_weights = [], prev_strategy_weights = [], prev_prices = [],
            prev_bm_nav = None, prev_mp_nav = None\<rparr>
         \<lparr>d_date = 1, d_bm_weights = [(''META US'', 1/2), (''Y'', 1/2)],
            d_active_weights = [(''META'', 1/4)],
            d_stock_price = [(''META US'', Some 100, None), (''Y'', Some 50, None)],
            d_prev_date_bm = None\<rparr>"
  have 1: "prev_strategy_weights (fst ?pd) = [(''META US'', 1/2), (''Y'', 1/2), (''META'', 1/4)]"
    by code_simp
  have 2: "map (\<lambda>r. (r_stock_name r, r_bm_weight r, r_active_weight r, r_strategy_weight r, r_mp_amount r))
        (fst (snd ?pd))
     = [(''META US'', 1/2, 1/4, 1/2, 3/4), (''Y'', 1/2, 0, 1/2, 1/2), (''META'', 0, 1/4, 1/4, 1/4),
        (''META US'', 1/2, 1/4, 1/2, 3/4), (''Y'', 1/2, 0, 1/2, 1/2), (''META'', 0, 1/4, 1/4, 1/4)]"
    by code_simp
  have 3: "map_option (\<lambda>e. (s_BM_NAV e, s_MP_NAV e)) (snd (snd ?pd)) = Some (1, 5/4)"
    by code_simp
  have 4: "current_active_weight [(''META'', 1/4)] ''META US'' = 1/4" by code_simp
  from 1 2 3 4 show ?thesis by blast
qed

section \<open>Properties of the identifier matching\<close>

text \<open>
  What each of the two matching loops computes: the delta stored under the
  exact name when that is not zero, otherwise the delta of the first override,
  in dictionary order, whose name passes one of the tests of the loop, and 0
  when none does.
\<close>

lemma current_active_weight_find:
  "current_active_weight act s =
     (if dict_get act s 0 \<noteq> 0 then dict_get act s 0
      else case find (\<lambda>(mp, w). engine_matches (clean s) mp) act of
             Some (mp, w) \<Rightarrow> w
           | None \<Rightarrow> 0)"
  by (cases act) (simp_all add: current_active_weight_def Let_def engine_match_loop_find dict_get_def)

lemma row_active_weight_find:
  "row_active_weight act s =
     (if dict_get act s 0 \<noteq> 0 then dict_get act s 0
      else case find (\<lambda>(mp, w). row_matches s mp) act of
             Some (mp, w) \<Rightarrow> w
           | None \<Rightarrow> 0)"
  by (cases act) (simp_all add: row_active_weight_def Let_def row_match_loop_find dict_get_def)

text \<open>
  C9.  The claim fails on the code: the two copies of the matching differ.  The
  loop that decides whether an override is applied to a stock (lines 3363-3377)
  has the tests 2 and 3 only; the loop of the output rows (lines 3456-3479) has
  the prefix test as well.  On a non-base date with the one holding 005930 KS
  and a delta of 0.01 stored under the name 005930, a pair the steps of the
  specification match, the engine resolves the delta 0 for the holding, dilutes
  it to 0.99 and gives the 0.01 to a separate name 005930, while the row of the
  holding reports the delta 0.01.  Both loops delete \<^verbatim>\<open>US\<close> anywhere in the
  name, not a trailing token: the override B US is applied to the holding
  USB US, which no step of the specification matches.
\<close>

theorem C9_matching_loops_differ:
  "spec_matches ''005930'' ''005930 KS''
   \<and> current_active_weight [(''005930'', 1/100)] ''005930 KS'' = 0
   \<and> row_active_weight [(''005930'', 1/100)] ''005930 KS'' = 1/100
   \<and> map (\<lambda>r. (r_stock_name r, r_active_weight r, r_strategy_weight r))
        (fst (snd (process_date remdups False 1 [(''005930 KS'', Some 100)]
           \<lparr>prev_bm_weights = [(''005930 KS'', 1)], prev_strategy_weights = [(''005930 KS'', 1)],
              prev_prices = [(''005930 KS'', Some 100)], prev_bm_nav = Some 1, prev_mp_nav = Some 1\<rparr>
           \<lparr>d_date = 2, d_bm_weights = [(''005930 KS'', 1)],
              d_active_weights = [(''005930'', 1/100)],
              d_stock_price = [(''005930 KS'', Some 100, None)], d_prev_date_bm = None\<rparr>)))
      = [(''005930'', 1/100, 1/100), (''005930 KS'', 1/100, 99/100),
         (''005930'', 1/100, 1/100), (''005930 KS'', 1/100, 99/100)]
   \<and> \<not> spec_matches ''B US'' ''USB US''
   \<and> current_active_weight [(''B US'', 1/100)] ''USB US'' = 1/100
   \<and> row_active_weight [(''B US'', 1/100)] ''USB US'' = 1/100"
proof -
  have 1: "spec_matches ''005930'' ''005930 KS''" by code_simp
  have 2: "current_active_weight [(''005930'', 1/100)] ''005930 KS'' = 0" by code_simp
  have 3: "row_active_weight [(''005930'', 1/100)] ''005930 KS'' = 1/100" by code_simp
  have 4: "map (\<lambda>r. (r_stock_name r, r_active_weight r, r_strategy_weight r))
        (fst (snd (process_date remdups False 1 [(''005930 KS'', Some 100)]
           \<lparr>prev_bm_weights = [(''005930 KS'', 1)], prev_strategy_weights = [(''005930 KS'', 1)],
              prev_prices = [(''005930 KS'', Some 100)], prev_bm_nav = Some 1, prev_mp_nav = Some 1\<rparr>
           \<lparr>d_date = 2, d_bm_weights = [(''005930 KS'', 1)],
              d_active_weights = [(''005930'', 1/100)],
              d_stock_price = [(''005930 KS'', Some 100, None)], d_prev_date_bm = None\<rparr>)))
      = [(''005930'', 1/100, 1/100), (''005930 KS'', 1/100, 99/100),
         (''005930'', 1/100, 1/100), (''005930 KS'', 1/100, 99/100)]"
    by code_simp
  have 5: "\<not> spec_matches ''B US'' ''USB US''" by code_simp
  have 6: "current_active_weight [(''B US'', 1/100)] ''USB US'' = 1/100" by code_simp
  have 7: "row_active_weight [(''B US'', 1/100)] ''USB US'' = 1/100" by code_simp
  from 1 2 3 4 5 6 7 show ?thesis by blast
qed

text \<open>
  On a non-base date a stock enters the injection loop exactly when the delta
  the engine resolves for it is strictly positive; a stock whose resolved delta
  is zero or negative gets the weight of a stock without override: its drifted
  weight, divided by the final NAV when some other stock is injected and that
  NAV is positive.
\<close>

lemma injection_only_for_positive_delta:
  assumes d: "distinct all_stocks" and mem: "s \<in> set all_stocks"
  shows "(map_of (stocks_with_active_weight all_stocks adjusted act) s \<noteq> None
            \<longleftrightarrow> current_active_weight act s > 0)
       \<and> (current_active_weight act s \<le> 0 \<longrightarrow>
            dict_get (apply_targeting all_stocks adjusted act) s 0 =
              (if stocks_with_active_weight all_stocks adjusted act \<noteq> []
                  \<and> nav_final (stocks_with_active_weight all_stocks adjusted act) adjusted > 0
               then dict_get adjusted s 0
                      / nav_final (stocks_with_active_weight all_stocks adjusted act) adjusted
               else dict_get adjusted s 0))"
proof -
  let ?swa = "stocks_with_active_weight all_stocks adjusted act"
  have 1: "map_of ?swa s \<noteq> None \<longleftrightarrow> current_active_weight act s > 0"
    using mem by (simp add: swa_map_of_None)
  have 2: "dict_get (apply_targeting all_stocks adjusted act) s 0 =
              (if ?swa \<noteq> [] \<and> nav_final ?swa adjusted > 0
               then dict_get adjusted s 0 / nav_final ?swa adjusted
               else dict_get adjusted s 0)"
    if le: "current_active_weight act s \<le> 0"
  proof (cases "?swa = []")
    case True
    then show ?thesis by (simp add: apply_targeting_empty)
  next
    case False
    from le have "map_of ?swa s = None" by (simp add: swa_map_of_None)
    from weight_not_overridden [OF False mem this] False show ?thesis by simp
  qed
  from 1 2 show ?thesis by blast
qed

text \<open>
  C10.  The claim fails on the code in its last part.  With the overrides AB
  0.01 and ABC 0.0 on a non-base date and the one holding ABC, the engine
  resolves the delta 0 for ABC (the stored 0.0 is read as no override, and its
  matching has no prefix test), so ABC is not injected and is diluted to 0.99
  like a stock without override; the rows of ABC report the active weight 0.01,
  which the prefix test of the row loop takes from AB.
\<close>

theorem C10_row_reports_unapplied_delta:
  "dict_get [(''AB'', 1/100), (''ABC'', 0)] ''ABC'' 0 = (0::real)
   \<and> current_active_weight [(''AB'', 1/100), (''ABC'', 0)] ''ABC'' = 0
   \<and> map (\<lambda>r. (r_stock_name r, r_active_weight r, r_strategy_weight r))
        (fst (snd (process_date remdups False 1 [(''ABC'', Some 100)]
           \<lparr>prev_bm_weights = [(''ABC'', 1)], prev_strategy_weights = [(''ABC'', 1)],
              prev_prices = [(''ABC'', Some 100)], prev_bm_nav = Some 1, prev_mp_nav = Some 1\<rparr>
           \<lparr>d_date = 2, d_bm_weights = [(''ABC'', 1)],
              d_active_weights = [(''AB'', 1/100), (''ABC'', 0)],
              d_stock_price = [(''ABC'', Some 100, None)], d_prev_date_bm = None\<rparr>)))
      = [(''AB'', 1/100, 1/100), (''ABC'', 1/100, 99/100),
         (''AB'', 1/100, 1/100), (''ABC'', 1/100, 99/100)]"
proof -
  have 1: "dict_get [(''AB'', 1/100), (''ABC'', 0)] ''ABC'' 0 = (0::real)"
    by (simp add: dict_get_def)
  have 2: "current_active_weight [(''AB'', 1/100), (''ABC'', 0)] ''ABC'' = 0" by code_simp
  have 3: "map (\<lambda>r. (r_stock_name r, r_active_weight r, r_strategy_weight r))
        (fst (snd (process_date remdups False 1 [(''ABC'', Some 100)]
           \<lparr>prev_bm_weights = [(''ABC'', 1)], prev_strategy_weights = [(''ABC'', 1)],
              prev_prices = [(''ABC'', Some 100)], prev_bm_nav = Some 1, prev_mp_nav = Some 1\<rparr>
           \<lparr>d_date = 2, d_bm_weights = [(''ABC'', 1)],
              d_active_weights = [(''AB'', 1/100), (''ABC'', 0)],
              d_stock_price = [(''ABC'', Some 100, None)], d_prev_date_bm = None\<rparr>)))
      = [(''AB'', 1/100, 1/100), (''ABC'', 1/100, 99/100),
         (''AB'', 1/100, 1/100), (''ABC'', 1/100, 99/100)]"
    by code_simp
  from 1 2 3 show ?thesis by blast
qed

section \<open>Properties of the chained sector contributions\<close>


end
